theory Spec2Isabelle
  imports Main "HOL-Library.Sublist"
begin

section \<open>Python strings\<close>

text \<open>
  A Python \<open>str\<close> is modelled as a \<open>string\<close> whose characters are the code points
  0..255.  \<open>str.strip()\<close> removes the characters Python counts as whitespace from both
  ends; below 256 these are 9..13, 28..32, 133 and 160.
\<close>

definition py_isspace :: "char \<Rightarrow> bool" where
  "py_isspace c =
     (let n = (of_char c :: nat)
      in (9 \<le> n \<and> n \<le> 13) \<or> (28 \<le> n \<and> n \<le> 32) \<or> n = 133 \<or> n = 160)"

definition strip_by :: "(char \<Rightarrow> bool) \<Rightarrow> string \<Rightarrow> string" where
  "strip_by P s = rev (dropWhile P (rev (dropWhile P s)))"

text \<open>\<open>s.strip()\<close> and \<open>s.strip('/')\<close>.\<close>

definition strip :: "string \<Rightarrow> string" where
  "strip s = strip_by py_isspace s"

definition strip_slash :: "string \<Rightarrow> string" where
  "strip_slash s = strip_by (\<lambda>c. c = CHR ''/'') s"

text \<open>
  \<open>s.lower()\<close>: below 256 the characters with a lowercase form are A..Z and the
  Latin-1 capitals 192..222 except the multiplication sign 215; each maps 32 places up.
\<close>

definition lower_char :: "char \<Rightarrow> char" where
  "lower_char c =
     (let n = (of_char c :: nat)
      in if (65 \<le> n \<and> n \<le> 90) \<or> (192 \<le> n \<and> n \<le> 222 \<and> n \<noteq> 215)
         then char_of (n + 32) else c)"

definition lower :: "string \<Rightarrow> string" where
  "lower s = map lower_char s"

text \<open>\<open>s.split('/')\<close>: the pieces between separators; never an empty list.\<close>

fun split_on :: "char \<Rightarrow> string \<Rightarrow> string list" where
  "split_on sep [] = [[]]"
| "split_on sep (c # cs) =
     (if c = sep then [] # split_on sep cs
      else (case split_on sep cs of
              p # ps \<Rightarrow> (c # p) # ps
            | [] \<Rightarrow> [[c]]))"

text \<open>\<open>needle in haystack\<close> on strings is the contiguous-substring test \<^const>\<open>sublist\<close>;
  \<open>s.startswith(p)\<close> is \<^const>\<open>prefix\<close>.\<close>

section \<open>Post ids of a listing (lines 59--60)\<close>

text \<open>The character class \<open>[a-zA-Z0-9]\<close>.\<close>

definition is_alnum :: "char \<Rightarrow> bool" where
  "is_alnum c =
     (let n = (of_char c :: nat)
      in (48 \<le> n \<and> n \<le> 57) \<or> (65 \<le> n \<and> n \<le> 90) \<or> (97 \<le> n \<and> n \<le> 122))"

text \<open>
  One attempt of the pattern \<open>/comments/([a-zA-Z0-9]+)/\<close> at the start of \<open>s\<close>: the
  literal, the longest run of class characters (a shorter run is followed by a class
  character, never by the slash, so backtracking changes nothing), and the closing slash.
  The result is the group and the text after the match.
\<close>

definition match_here :: "string \<Rightarrow> (string \<times> string) option" where
  "match_here s =
     (if prefix ''/comments/'' s then
        (let r = drop 10 s; tok = takeWhile is_alnum r
         in case dropWhile is_alnum r of
              [] \<Rightarrow> None
            | c # rest \<Rightarrow> if tok \<noteq> [] \<and> c = CHR ''/'' then Some (tok, rest) else None)
      else None)"

lemma match_here_shorter:
  "match_here s = Some (tok, rest) \<Longrightarrow> length rest < length s"
proof -
  assume m: "match_here s = Some (tok, rest)"
  then obtain c where d: "dropWhile is_alnum (drop 10 s) = c # rest"
    by (auto simp: match_here_def Let_def split: if_splits list.splits)
  have "length (dropWhile is_alnum (drop 10 s)) \<le> length (drop 10 s)"
    by (rule length_dropWhile_le)
  with d show ?thesis by simp
qed

text \<open>
  \<open>re.findall\<close> with this pattern: scan from the left; where the pattern matches, emit the
  group and go on after the match, otherwise move one character on.
\<close>

function findall_comments :: "string \<Rightarrow> string list" where
  "findall_comments [] = []"
| "findall_comments (c # cs) =
     (case match_here (c # cs) of
        Some (tok, rest) \<Rightarrow> tok # findall_comments rest
      | None \<Rightarrow> findall_comments cs)"
  by pat_completeness auto
termination
  by (relation "measure length") (auto dest: match_here_shorter)

text \<open>
  \<open>list(dict.fromkeys(xs))\<close>: the keys are inserted one by one into an insertion-ordered
  dictionary; a key already present keeps its place.
\<close>

fun fromkeys_into :: "'a list \<Rightarrow> 'a list \<Rightarrow> 'a list" where
  "fromkeys_into d [] = d"
| "fromkeys_into d (k # ks) = fromkeys_into (if k \<in> set d then d else d @ [k]) ks"

definition dict_fromkeys :: "'a list \<Rightarrow> 'a list" where
  "dict_fromkeys xs = fromkeys_into [] xs"

text \<open>The slice \<open>xs[:n]\<close>; a negative \<open>n\<close> counts from the end.\<close>

definition slice_to :: "int \<Rightarrow> 'a list \<Rightarrow> 'a list" where
  "slice_to n xs =
     (if 0 \<le> n then take (nat n) xs else take (length xs - nat (- n)) xs)"

definition extract_post_ids :: "string \<Rightarrow> int \<Rightarrow> string list" where
  "extract_post_ids response_text post_limit =
     slice_to post_limit (dict_fromkeys (findall_comments response_text))"

text \<open>Deduplication as the specification words it: keep the first occurrence of each
  element, in order.\<close>

fun first_seen :: "'a list \<Rightarrow> 'a list" where
  "first_seen [] = []"
| "first_seen (x # xs) = x # filter (\<lambda>y. y \<noteq> x) (first_seen xs)"

section \<open>Values decoded by \<open>json.loads\<close>\<close>

text \<open>
  A float is kept as far as the code can observe it: the program only tests it for
  truth, and a float is false exactly when it is zero.  \<open>FFinite m e\<close> stands for
  \<open>m * 2^e\<close>.
\<close>

datatype pyfloat = FFinite int int | FInfinity bool | FNaN

datatype json =
    JNull
  | JBool bool
  | JInt int
  | JFloat pyfloat
  | JString string
  | JArray "json list"
  | JObject "(string \<times> json) list"

text \<open>A decoded object is a \<open>dict\<close>: its keys are distinct, and \<^const>\<open>map_of\<close> reads it.\<close>

datatype py_error =
    ValueError | KeyError | TypeError | AttributeError | JSONDecodeError | RecursionError
  | ToolError | SystemExit

text \<open>Truth value of a decoded value, as \<open>if x\<close>, \<open>x and y\<close>, \<open>x or y\<close> test it.\<close>

fun truthy :: "json \<Rightarrow> bool" where
  "truthy JNull = False"
| "truthy (JBool b) = b"
| "truthy (JInt i) = (i \<noteq> 0)"
| "truthy (JFloat (FFinite m e)) = (m \<noteq> 0)"
| "truthy (JFloat (FInfinity sign)) = True"
| "truthy (JFloat FNaN) = True"
| "truthy (JString s) = (s \<noteq> [])"
| "truthy (JArray xs) = (xs \<noteq> [])"
| "truthy (JObject kv) = (kv \<noteq> [])"

text \<open>\<open>x.strip()\<close> and \<open>x.lower()\<close>: only a \<open>str\<close> has these methods.\<close>

fun str_strip :: "json \<Rightarrow> py_error + string" where
  "str_strip (JString s) = Inr (strip s)"
| "str_strip _ = Inl AttributeError"

fun str_lower :: "json \<Rightarrow> py_error + string" where
  "str_lower (JString s) = Inr (lower s)"
| "str_lower _ = Inl AttributeError"

text \<open>\<open>key in x\<close>: key membership for a dict, element membership for a list, substring
  test for a str; any other decoded value is not a container.\<close>

fun py_in :: "string \<Rightarrow> json \<Rightarrow> py_error + bool" where
  "py_in key (JObject kv) = Inr (key \<in> fst ` set kv)"
| "py_in key (JArray xs) = Inr (JString key \<in> set xs)"
| "py_in key (JString s) = Inr (sublist key s)"
| "py_in key _ = Inl TypeError"

text \<open>\<open>x[key]\<close> with a string key.\<close>

fun subscript :: "json \<Rightarrow> string \<Rightarrow> py_error + json" where
  "subscript (JObject kv) key = (case map_of kv key of None \<Rightarrow> Inl KeyError | Some v \<Rightarrow> Inr v)"
| "subscript _ key = Inl TypeError"

text \<open>\<open>x.get(key, default)\<close>: only a dict has the method.\<close>

fun py_get :: "json \<Rightarrow> string \<Rightarrow> json \<Rightarrow> py_error + json" where
  "py_get (JObject kv) key dflt = Inr (case map_of kv key of None \<Rightarrow> dflt | Some v \<Rightarrow> v)"
| "py_get _ key dflt = Inl AttributeError"

section \<open>Flattening a comment tree (lines 118--132)\<close>

lemma size_map_of:
  "map_of kv k = Some v \<Longrightarrow> size v < Suc (size_list (size_prod f size) kv)"
  by (induction kv) (auto split: if_splits)

text \<open>
  \<open>extend_each items bodies\<close> is either \<open>for\<close> loop, with \<open>bodies\<close> the list built so far.
  In the dict branch the body is read first, then the replies.  A true \<open>replies\<close> value is
  iterated: a list gives its elements; a dict gives its keys and a str its characters,
  all strings, on which the recursive call returns the empty list, so \<open>bodies\<close> stays as
  it is; a number or \<open>True\<close> cannot be iterated.
\<close>

function extract_comment_bodies :: "json \<Rightarrow> py_error + string list"
  and extend_each :: "json list \<Rightarrow> string list \<Rightarrow> py_error + string list" where
  "extract_comment_bodies (JObject data) =
     (case (case map_of data ''body'' of
              None \<Rightarrow> Inr []
            | Some v \<Rightarrow>
                (case str_strip v of
                   Inl e \<Rightarrow> Inl e
                 | Inr body \<Rightarrow>
                     if body \<noteq> [] \<and> body \<notin> set [''[deleted]'', ''[removed]'', '''']
                     then Inr [body] else Inr [])) of
        Inl e \<Rightarrow> Inl e
      | Inr bodies \<Rightarrow>
          (case map_of data ''replies'' of
             None \<Rightarrow> Inr bodies
           | Some r \<Rightarrow>
               if \<not> truthy r then Inr bodies
               else (case r of
                       JArray rs \<Rightarrow> extend_each rs bodies
                     | JObject kv \<Rightarrow> Inr bodies
                     | JString s \<Rightarrow> Inr bodies
                     | _ \<Rightarrow> Inl TypeError)))"
| "extract_comment_bodies (JArray items) = extend_each items []"
| "extract_comment_bodies JNull = Inr []"
| "extract_comment_bodies (JBool b) = Inr []"
| "extract_comment_bodies (JInt i) = Inr []"
| "extract_comment_bodies (JFloat f) = Inr []"
| "extract_comment_bodies (JString s) = Inr []"
| "extend_each [] bodies = Inr bodies"
| "extend_each (item # items) bodies =
     (case extract_comment_bodies item of
        Inl e \<Rightarrow> Inl e
      | Inr bs \<Rightarrow> extend_each items (bodies @ bs))"
  by pat_completeness auto
termination
proof (relation "measure (\<lambda>x. case x of Inl j \<Rightarrow> size j | Inr (js, bs) \<Rightarrow> size_list size js)")
  fix data :: "(string \<times> json) list" and r rs
  assume "map_of data ''replies'' = Some r" and "r = JArray rs"
  then have "size (JArray rs) < Suc (size_list (size_prod (\<lambda>_. 0) size) data)"
    by (simp only: size_map_of)
  then show "(Inr (rs, x), Inl (JObject data))
        \<in> measure (\<lambda>x. case x of Inl j \<Rightarrow> size j | Inr (js, bs) \<Rightarrow> size_list size js)" for x
    by simp
qed auto

section \<open>The content of one post (lines 85--96)\<close>

text \<open>
  Each step takes \<open>reddit_texts\<close> and returns it with the new entry appended, or raises
  without having changed it.
\<close>

definition add_title :: "json \<Rightarrow> string list \<Rightarrow> py_error + string list" where
  "add_title post_data texts =
     (case py_in ''title'' post_data of
        Inl e \<Rightarrow> Inl e
      | Inr False \<Rightarrow> Inr texts
      | Inr True \<Rightarrow>
          (case subscript post_data ''title'' of
             Inl e \<Rightarrow> Inl e
           | Inr v \<Rightarrow>
               (case str_strip v of
                  Inl e \<Rightarrow> Inl e
                | Inr title \<Rightarrow>
                    Inr (if title \<noteq> [] then texts @ [title] else texts))))"

text \<open>\<open>post_data.get('selftext') or post_data.get('body') or post_data.get('text', '')\<close>:
  the first true operand, else the last one.\<close>

definition body_text_of :: "json \<Rightarrow> py_error + json" where
  "body_text_of post_data =
     (case py_get post_data ''selftext'' JNull of
        Inl e \<Rightarrow> Inl e
      | Inr a \<Rightarrow>
          if truthy a then Inr a
          else (case py_get post_data ''body'' JNull of
                  Inl e \<Rightarrow> Inl e
                | Inr b \<Rightarrow>
                    if truthy b then Inr b
                    else py_get post_data ''text'' (JString '''')))"

definition add_body :: "json \<Rightarrow> string list \<Rightarrow> py_error + string list" where
  "add_body post_data texts =
     (case body_text_of post_data of
        Inl e \<Rightarrow> Inl e
      | Inr body_text \<Rightarrow>
          if \<not> truthy body_text then Inr texts
          else (case str_strip body_text of
                  Inl e \<Rightarrow> Inl e
                | Inr stripped \<Rightarrow>
                    if stripped = [] then Inr texts
                    else (case str_lower body_text of
                            Inl e \<Rightarrow> Inl e
                          | Inr lowered \<Rightarrow>
                              if lowered \<notin> set [''none'', ''n/a'', ''[deleted]'', ''[removed]'', '''']
                              then Inr (texts @ [stripped])
                              else Inr texts)))"

text \<open>Title, then body.  An exception in the body step leaves the title appended.  The
  result is the list as the block leaves it and the exception that left it, if any.\<close>

definition add_post_content :: "json \<Rightarrow> string list \<Rightarrow> string list \<times> py_error option" where
  "add_post_content post_data texts =
     (case add_title post_data texts of
        Inl e \<Rightarrow> (texts, Some e)
      | Inr texts1 \<Rightarrow>
          (case add_body post_data texts1 of
             Inl e \<Rightarrow> (texts1, Some e)
           | Inr texts2 \<Rightarrow> (texts2, None)))"

section \<open>The tool session and the per-post loop (lines 65--159)\<close>

text \<open>
  The tool-calling collaborator is outside the program.  A call either raises, or returns
  a result with no content, or a result whose first content item carries a text.  The
  collaborator may answer from everything it was asked before: a session maps the calls
  made so far and the present call to its outcome.  All its exceptions derive from
  \<open>Exception\<close>; they are written \<open>ToolError\<close>.
\<close>

datatype tool_call =
    GetSubredditHotPosts string int
  | GetPostContent string
  | GetPostComments string

datatype tool_result = Raised | NoContent | FirstText string

type_synonym session = "tool_call list \<Rightarrow> tool_call \<Rightarrow> tool_result"

text \<open>The state of a run: the list \<open>reddit_texts\<close> and the calls made so far.\<close>

record run_state =
  reddit_texts :: "string list"
  calls :: "tool_call list"

definition call_tool :: "session \<Rightarrow> tool_call \<Rightarrow> run_state \<Rightarrow> tool_result \<times> run_state" where
  "call_tool sess c st = (sess (calls st) c, st\<lparr>calls := calls st @ [c]\<rparr>)"

text \<open>
  \<open>json.loads\<close> is a parameter \<open>json_loads\<close> of the model.  It returns the decoded value
  or raises: \<open>Inl JSONDecodeError\<close> is the error that lines 100 and 144 catch; any other
  exception (\<open>RecursionError\<close> on a deep nesting, a plain \<open>ValueError\<close> on an integer
  literal with too many digits) passes these handlers and reaches the general ones of
  lines 158 and 150.
\<close>

type_synonym decoder = "string \<Rightarrow> py_error + json"

text \<open>Lines 138--140: the bodies that are not blank are appended in order.\<close>

fun append_bodies :: "string list \<Rightarrow> string list \<Rightarrow> string list" where
  "append_bodies [] texts = texts"
| "append_bodies (body # rest) texts =
     append_bodies rest (if strip body \<noteq> [] then texts @ [body] else texts)"

text \<open>
  Lines 112--148, from the result of the comments call on.  An exception of the decoder
  is caught at line 144 or at line 150, and both handlers only report.  The flattener
  runs to its end before anything is appended, so an exception in it (caught at line 150)
  appends nothing.
\<close>

definition add_comments :: "decoder \<Rightarrow> tool_result \<Rightarrow> string list \<Rightarrow> string list" where
  "add_comments json_loads comments_result texts =
     (case comments_result of
        Raised \<Rightarrow> texts
      | NoContent \<Rightarrow> texts
      | FirstText comments_text \<Rightarrow>
          if sublist ''Error processing'' comments_text then texts
          else (case json_loads comments_text of
                  Inl e \<Rightarrow> texts
                | Inr comments_data \<Rightarrow>
                    (case extract_comment_bodies comments_data of
                       Inl e \<Rightarrow> texts
                     | Inr comment_bodies \<Rightarrow> append_bodies comment_bodies texts)))"

text \<open>Lines 105--151: the comments call and what follows it.\<close>

definition fetch_comments :: "decoder \<Rightarrow> session \<Rightarrow> string \<Rightarrow> run_state \<Rightarrow> run_state" where
  "fetch_comments json_loads sess post_id st =
     (case call_tool sess (GetPostComments post_id) st of
        (comments_result, st1) \<Rightarrow>
          st1\<lparr>reddit_texts := add_comments json_loads comments_result (reddit_texts st1)\<rparr>)"

text \<open>
  Lines 70--102: the content call and what follows it, up to the comment at line 104.
  The step ends in one of three ways: control goes on to the comments (\<open>Proceed\<close>), the
  \<open>continue\<close> of line 81 is taken, or an exception leaves for the handler of line 158.
  Of the decoder's exceptions only \<open>JSONDecodeError\<close> is caught at line 100.
\<close>

datatype flow = Proceed | Continue | Caught py_error

definition fetch_content :: "decoder \<Rightarrow> session \<Rightarrow> string \<Rightarrow> run_state \<Rightarrow> run_state \<times> flow" where
  "fetch_content json_loads sess post_id st =
     (case call_tool sess (GetPostContent post_id) st of
        (Raised, st1) \<Rightarrow> (st1, Caught ToolError)
      | (NoContent, st1) \<Rightarrow> (st1, Proceed)
      | (FirstText post_full_text, st1) \<Rightarrow>
          if sublist ''Error processing'' post_full_text then (st1, Continue)
          else (case json_loads post_full_text of
                  Inl e \<Rightarrow> if e = JSONDecodeError then (st1, Proceed) else (st1, Caught e)
                | Inr post_data \<Rightarrow>
                    (case add_post_content post_data (reddit_texts st1) of
                       (texts, None) \<Rightarrow> (st1\<lparr>reddit_texts := texts\<rparr>, Proceed)
                     | (texts, Some e) \<Rightarrow> (st1\<lparr>reddit_texts := texts\<rparr>, Caught e))))"

text \<open>One iteration of the loop.  The handler of line 158 only reports; the pause of
  lines 154--156 and all printing change neither the list nor the calls.\<close>

definition process_post :: "decoder \<Rightarrow> session \<Rightarrow> string \<Rightarrow> run_state \<Rightarrow> run_state" where
  "process_post json_loads sess post_id st =
     (case fetch_content json_loads sess post_id st of
        (st1, Proceed) \<Rightarrow> fetch_comments json_loads sess post_id st1
      | (st1, Continue) \<Rightarrow> st1
      | (st1, Caught e) \<Rightarrow> st1)"

fun scrape_loop :: "decoder \<Rightarrow> session \<Rightarrow> string list \<Rightarrow> run_state \<Rightarrow> run_state" where
  "scrape_loop json_loads sess [] st = st"
| "scrape_loop json_loads sess (post_id # rest) st =
     scrape_loop json_loads sess rest (process_post json_loads sess post_id st)"

section \<open>The forum name (lines 10--23)\<close>

text \<open>\<open>xs.index(x)\<close>: the first position of \<open>x\<close>.\<close>

fun list_index :: "'a \<Rightarrow> 'a list \<Rightarrow> py_error + nat" where
  "list_index x [] = Inl ValueError"
| "list_index x (y # ys) =
     (if y = x then Inr 0
      else (case list_index x ys of Inl e \<Rightarrow> Inl e | Inr i \<Rightarrow> Inr (Suc i)))"

text \<open>
  \<open>urlparse(url).path\<close> belongs to the standard library; it is the parameter
  \<open>urlparse_path\<close>, which returns the path or raises.
\<close>

definition extract_subreddit_name ::
  "(string \<Rightarrow> py_error + string) \<Rightarrow> string \<Rightarrow> py_error + string" where
  "extract_subreddit_name urlparse_path url =
     (if prefix ''r/'' url then Inr (drop 2 url)
      else (case urlparse_path url of
              Inl e \<Rightarrow> Inl e
            | Inr path \<Rightarrow>
                (let path_parts = split_on CHR ''/'' (strip_slash path)
                 in if ''r'' \<in> set path_parts then
                      (case list_index ''r'' path_parts of
                         Inl e \<Rightarrow> Inl e
                       | Inr r_index \<Rightarrow>
                           if r_index + 1 < length path_parts
                           then Inr (path_parts ! (r_index + 1))
                           else Inr url)
                    else Inr url)))"

text \<open>The rule of the specification: the segment that follows the first segment equal
  to the marker \<open>r\<close>, if there is one.\<close>

fun following_marker :: "string list \<Rightarrow> string option" where
  "following_marker (a # b # rest) =
     (if a = ''r'' then Some b else following_marker (b # rest))"
| "following_marker _ = None"

text \<open>Lines 18--21 on their own: the element after the first occurrence of \<open>m\<close>, found
  by membership test, index and bounds check.\<close>

definition after_first :: "string \<Rightarrow> string list \<Rightarrow> string option" where
  "after_first m parts =
     (if m \<in> set parts then
        (case list_index m parts of
           Inl e \<Rightarrow> None
         | Inr i \<Rightarrow> if i + 1 < length parts then Some (parts ! (i + 1)) else None)
      else None)"

section \<open>The run (lines 25--169) and the command line (lines 171--180)\<close>

text \<open>
  The run returns the forum name and the final state, from which the table is written.
  An exception of the name parser or of the listing call is not caught.  Starting the
  server and opening the session (lines 32--42) come before any call and are not part of
  the model.
\<close>

definition scrape_reddit_mcp ::
  "(string \<Rightarrow> py_error + string) \<Rightarrow> decoder \<Rightarrow> session \<Rightarrow> string \<Rightarrow> int
     \<Rightarrow> py_error + (string \<times> run_state)" where
  "scrape_reddit_mcp urlparse_path json_loads sess subreddit_url post_limit =
     (case extract_subreddit_name urlparse_path subreddit_url of
        Inl e \<Rightarrow> Inl e
      | Inr subreddit_name \<Rightarrow>
          (case call_tool sess (GetSubredditHotPosts subreddit_name (min post_limit 100))
                  \<lparr>reddit_texts = [], calls = []\<rparr> of
             (Raised, st) \<Rightarrow> Inl ToolError
           | (hot_posts_result, st) \<Rightarrow>
               (let response_text =
                      (case hot_posts_result of FirstText t \<Rightarrow> t | _ \<Rightarrow> '''');
                    post_ids = extract_post_ids response_text post_limit
                in Inr (subreddit_name, scrape_loop json_loads sess post_ids st))))"

text \<open>\<open>int(sys.argv[2])\<close> is the parameter \<open>py_int\<close>: \<open>None\<close> is its \<open>ValueError\<close>.\<close>

definition main ::
  "(string \<Rightarrow> int option) \<Rightarrow> (string \<Rightarrow> py_error + string) \<Rightarrow> decoder \<Rightarrow> session
     \<Rightarrow> string list \<Rightarrow> py_error + (string \<times> run_state)" where
  "main py_int urlparse_path json_loads sess argv =
     (if length argv < 2 then Inl SystemExit
      else (let subreddit_url = argv ! 1
            in case (if length argv > 2 then py_int (argv ! 2) else Some 100) of
                 None \<Rightarrow> Inl ValueError
               | Some post_limit \<Rightarrow>
                   scrape_reddit_mcp urlparse_path json_loads sess subreddit_url post_limit))"

section \<open>The URL parser of the standard library\<close>

text \<open>
  \<open>urlparse(url).path\<close> as CPython's \<open>urllib.parse\<close> computes it (version 3.12): leading
  control characters and spaces are dropped, tabs and line breaks removed, a scheme and a
  network location split off, then fragment, query and the parameters of the last path
  segment.  A network location with only one of the two square brackets raises
  \<open>ValueError\<close>.  One with both brackets is checked further (the bracketed host must be
  an IPv6 or IPvFuture address), by code that differs between versions and rests on the
  \<open>ipaddress\<close> library: that check is the parameter \<open>bracketed_netloc_ok\<close>, and a
  network location it refuses raises \<open>ValueError\<close>.  The check of a network location
  outside ASCII raises only when NFKC normalisation brings in one of the characters
  \<open>/?#@:\<close>, which no character below 256 does.
\<close>

definition c0_or_space :: "char \<Rightarrow> bool" where
  "c0_or_space c = ((of_char c :: nat) \<le> 32)"

definition ascii_alpha :: "char \<Rightarrow> bool" where
  "ascii_alpha c =
     (let n = (of_char c :: nat) in (65 \<le> n \<and> n \<le> 90) \<or> (97 \<le> n \<and> n \<le> 122))"

definition scheme_char :: "char \<Rightarrow> bool" where
  "scheme_char c = (is_alnum c \<or> c \<in> set ''+-.'')"

definition urlsplit_scheme :: "string \<Rightarrow> string \<times> string" where
  "urlsplit_scheme url =
     (let head = takeWhile (\<lambda>c. c \<noteq> CHR '':'') url
      in if CHR '':'' \<in> set url \<and> head \<noteq> [] \<and> ascii_alpha (hd head) \<and> list_all scheme_char head
         then (lower head, drop (length head + 1) url)
         else ('''', url))"

definition urlsplit_netloc :: "string \<Rightarrow> string \<times> string" where
  "urlsplit_netloc url =
     (if take 2 url = ''//''
      then (takeWhile (\<lambda>c. c \<notin> set ''/?#'') (drop 2 url),
            dropWhile (\<lambda>c. c \<notin> set ''/?#'') (drop 2 url))
      else ('''', url))"

definition uses_params :: "string list" where
  "uses_params =
     ['''', ''ftp'', ''hdl'', ''prospero'', ''http'', ''imap'', ''https'', ''shttp'', ''rtsp'',
      ''rtspu'', ''sip'', ''sips'', ''mms'', ''sftp'', ''tel'']"

definition splitparams :: "string \<Rightarrow> string" where
  "splitparams url =
     (let seg = rev (takeWhile (\<lambda>c. c \<noteq> CHR ''/'') (rev url));
          dir = take (length url - length seg) url
      in dir @ takeWhile (\<lambda>c. c \<noteq> CHR '';'') seg)"

definition cpython_urlparse_path :: "(string \<Rightarrow> bool) \<Rightarrow> string \<Rightarrow> py_error + string" where
  "cpython_urlparse_path bracketed_netloc_ok url =
     (let url1 = filter (\<lambda>c. c \<notin> set [CHR 0x09, CHR 0x0D, CHR 0x0A]) (dropWhile c0_or_space url)
      in case urlsplit_scheme url1 of
           (scheme, url2) \<Rightarrow>
             (case urlsplit_netloc url2 of
                (netloc, url3) \<Rightarrow>
                  if (CHR ''['' \<in> set netloc) \<noteq> (CHR '']'' \<in> set netloc) then Inl ValueError
                  else if CHR ''['' \<in> set netloc \<and> CHR '']'' \<in> set netloc
                          \<and> \<not> bracketed_netloc_ok netloc then Inl ValueError
                  else (let url4 = takeWhile (\<lambda>c. c \<noteq> CHR ''?'')
                                     (takeWhile (\<lambda>c. c \<noteq> CHR ''#'') url3)
                        in Inr (if scheme \<in> set uses_params \<and> CHR '';'' \<in> set url4
                                then splitparams url4 else url4))))"

section \<open>What one post appends\<close>

text \<open>The decoded record that lines 88--96 run on, if the content response gives one.\<close>

definition parsed_content :: "decoder \<Rightarrow> tool_result \<Rightarrow> json option" where
  "parsed_content json_loads content_result =
     (case content_result of
        FirstText t \<Rightarrow>
          if sublist ''Error processing'' t then None
          else (case json_loads t of Inl e \<Rightarrow> None | Inr post_data \<Rightarrow> Some post_data)
      | _ \<Rightarrow> None)"

text \<open>The entries that the title step and the body step append for a content response;
  the body step is not reached when the title step raises.\<close>

definition title_entry :: "decoder \<Rightarrow> tool_result \<Rightarrow> string list" where
  "title_entry json_loads content_result =
     (case parsed_content json_loads content_result of
        None \<Rightarrow> []
      | Some post_data \<Rightarrow> (case add_title post_data [] of Inl e \<Rightarrow> [] | Inr ts \<Rightarrow> ts))"

definition body_entry :: "decoder \<Rightarrow> tool_result \<Rightarrow> string list" where
  "body_entry json_loads content_result =
     (case parsed_content json_loads content_result of
        None \<Rightarrow> []
      | Some post_data \<Rightarrow>
          (case add_title post_data [] of
             Inl e \<Rightarrow> []
           | Inr ts \<Rightarrow> (case add_body post_data [] of Inl e \<Rightarrow> [] | Inr bs \<Rightarrow> bs)))"

text \<open>
  Whether control reaches the comments after a content response: the call returned, the
  text does not carry the marker of line 79, the decoder raised nothing but
  \<open>JSONDecodeError\<close> (line 100), and reading the decoded record raised nothing.  A result
  without content goes on.
\<close>

definition proceeds :: "decoder \<Rightarrow> tool_result \<Rightarrow> bool" where
  "proceeds json_loads content_result =
     (case content_result of
        Raised \<Rightarrow> False
      | NoContent \<Rightarrow> True
      | FirstText t \<Rightarrow>
          \<not> sublist ''Error processing'' t \<and>
          (case json_loads t of
             Inl e \<Rightarrow> e = JSONDecodeError
           | Inr post_data \<Rightarrow> snd (add_post_content post_data []) = None))"

text \<open>The ids for which the content call was made, in the order of the calls.\<close>

fun content_ids :: "tool_call list \<Rightarrow> string list" where
  "content_ids [] = []"
| "content_ids (GetPostContent post_id # cs) = post_id # content_ids cs"
| "content_ids (c # cs) = content_ids cs"

section \<open>Comment trees of the specification\<close>

text \<open>
  A comment node has an optional body and an ordered list of replies.  Its decoded form
  is a dict with the key \<open>body\<close>, when there is one, and the key \<open>replies\<close>.
\<close>

datatype comment_node = CommentNode "string option" "comment_node list"

fun node_json :: "comment_node \<Rightarrow> json" where
  "node_json (CommentNode b rs) =
     JObject ((case b of None \<Rightarrow> [] | Some s \<Rightarrow> [(''body'', JString s)])
              @ [(''replies'', JArray (map node_json rs))])"


section \<open>Example collaborators\<close>

text \<open>
  Inputs for the examples below: four response texts, a decoder that knows them and the
  text \<open>5\<close>, fails with \<open>RecursionError\<close> on a thousand opening brackets and with
  \<open>JSONDecodeError\<close> on everything else, and a session.  The session lists the ids a1,
  c3, a1 and b2; the content call answers a1 and b2 with a record, raises for c3, answers
  d4 with an error message of the server, e5 with the text \<open>5\<close>, f6 with a text that is
  no JSON and g7 with the thousand brackets, and has no content for any other id; the
  comments call returns a forest of two trees for h8 and the same tree for every other
  id.
\<close>

definition hi_text :: string where
  \<open>hi_text = ''{"title": " Hi ", "selftext": "none"}''\<close>

definition yo_text :: string where
  \<open>yo_text = ''{"title": "Yo", "body": " more text "}''\<close>

definition tree_text :: string where
  \<open>tree_text = ''[{"body": "[deleted]", "replies": [{"body": " hello ", "replies": ""}]}, {"body": "bye"}]''\<close>

definition forest_text :: string where
  \<open>forest_text = ''[{"body": "one", "replies": [{"body": " two ", "replies": []}, {"replies": []}]}, {"body": "three", "replies": []}]''\<close>

definition example_forest :: "comment_node list" where
  "example_forest =
     [CommentNode (Some ''one'') [CommentNode (Some '' two '') [], CommentNode None []],
      CommentNode (Some ''three'') []]"

definition deep_text :: string where
  "deep_text = replicate 1000 CHR ''[''"

definition example_json_loads :: decoder where
  "example_json_loads t =
     (if t = hi_text then
        Inr (JObject [(''title'', JString '' Hi ''), (''selftext'', JString ''none'')])
      else if t = yo_text then
        Inr (JObject [(''title'', JString ''Yo''), (''body'', JString '' more text '')])
      else if t = tree_text then
        Inr (JArray
               [JObject [(''body'', JString ''[deleted]''),
                         (''replies'', JArray [JObject [(''body'', JString '' hello ''),
                                                        (''replies'', JString '''')]])],
                JObject [(''body'', JString ''bye'')]])
      else if t = forest_text then Inr (JArray (map node_json example_forest))
      else if t = ''5'' then Inr (JInt 5)
      else if t = deep_text then Inl RecursionError
      else Inl JSONDecodeError)"

definition example_session :: session where
  "example_session history c =
     (case c of
        GetSubredditHotPosts name limit \<Rightarrow>
          FirstText ''/r/x/comments/a1/one/ /r/x/comments/c3/three/ /r/x/comments/a1/one/ /r/x/comments/b2/two/''
      | GetPostContent post_id \<Rightarrow>
          if post_id = ''a1'' then FirstText hi_text
          else if post_id = ''b2'' then FirstText yo_text
          else if post_id = ''c3'' then Raised
          else if post_id = ''d4'' then FirstText ''Error processing request''
          else if post_id = ''e5'' then FirstText ''5''
          else if post_id = ''f6'' then FirstText ''<html>''
          else if post_id = ''g7'' then FirstText deep_text
          else NoContent
      | GetPostComments post_id \<Rightarrow>
          if post_id = ''h8'' then FirstText forest_text else FirstText tree_text)"

text \<open>A reader of the limit argument for the three values used below.\<close>

definition example_py_int :: "string \<Rightarrow> int option" where
  "example_py_int s =
     (if s = ''2'' then Some 2 else if s = ''500'' then Some 500
      else if s = ''-1'' then Some (- 1) else None)"

text \<open>The URL parser of the examples.  None of them has a network location with both
  square brackets, so the check of such a location is never consulted; it is given as
  the check that accepts none.\<close>

definition example_urlparse_path :: "string \<Rightarrow> py_error + string" where
  "example_urlparse_path = cpython_urlparse_path (\<lambda>netloc. False)"

text \<open>An entry is clean when it is not empty and equals its own trimmed form.\<close>

definition clean :: "string \<Rightarrow> bool" where
  "clean e = (e \<noteq> [] \<and> strip e = e)"

section \<open>Properties of the id extractor\<close>

lemma first_seen_filter: "first_seen (filter P xs) = filter P (first_seen xs)"
proof (induction xs)
  case Nil show ?case by simp
next
  case (Cons x xs)
  show ?case
  proof (cases "P x")
    case True
    then show ?thesis using Cons by (simp add: conj_commute)
  next
    case False
    then have "filter (\<lambda>y. y \<noteq> x \<and> P y) (first_seen xs) = filter P (first_seen xs)"
      by (intro filter_cong) auto
    with False Cons show ?thesis by simp
  qed
qed

lemma fromkeys_into_first_seen:
  "fromkeys_into d xs = d @ first_seen (filter (\<lambda>x. x \<notin> set d) xs)"
proof (induction xs arbitrary: d)
  case Nil show ?case by simp
next
  case (Cons k ks)
  show ?case
  proof (cases "k \<in> set d")
    case True
    then show ?thesis using Cons[of d] by simp
  next
    case False
    have "first_seen (filter (\<lambda>x. x \<notin> set (d @ [k])) ks)
          = filter (\<lambda>y. y \<noteq> k) (first_seen (filter (\<lambda>x. x \<notin> set d) ks))"
      by (simp add: first_seen_filter conj_commute)
    with False Cons[of "d @ [k]"] show ?thesis by simp
  qed
qed

lemma dict_fromkeys_first_seen: "dict_fromkeys xs = first_seen xs"
  by (simp add: dict_fromkeys_def fromkeys_into_first_seen)

lemma set_first_seen: "set (first_seen xs) = set xs"
  by (induction xs) auto

lemma distinct_first_seen: "distinct (first_seen xs)"
  by (induction xs) (auto simp: set_first_seen)

lemma sublist_prepend: "sublist xs ys \<Longrightarrow> sublist xs (zs @ ys)"
  unfolding sublist_def by (metis append.assoc)

lemma match_here_shape:
  assumes "match_here s = Some (tok, rest)"
  shows "s = ''/comments/'' @ tok @ ''/'' @ rest \<and> tok \<noteq> [] \<and> (\<forall>c\<in>set tok. is_alnum c)"
proof -
  from assms have p: "prefix ''/comments/'' s"
    by (auto simp: match_here_def split: if_splits)
  from assms obtain c where d: "dropWhile is_alnum (drop 10 s) = c # rest"
    and t: "tok = takeWhile is_alnum (drop 10 s)" and ne: "tok \<noteq> []" and c: "c = CHR ''/''"
    by (auto simp: match_here_def Let_def split: if_splits list.splits)
  from p obtain r where s: "s = ''/comments/'' @ r" by (auto simp: prefix_def)
  then have r: "drop 10 s = r" by simp
  have "r = takeWhile is_alnum r @ dropWhile is_alnum r" by simp
  with d t c r have "r = tok @ ''/'' @ rest" by simp
  moreover have "\<forall>c\<in>set tok. is_alnum c" unfolding t by (auto dest: set_takeWhileD)
  ultimately show ?thesis using s ne by simp
qed

lemma findall_comments_sound:
  "tok \<in> set (findall_comments s) \<Longrightarrow>
     tok \<noteq> [] \<and> (\<forall>c\<in>set tok. is_alnum c) \<and> sublist (''/comments/'' @ tok @ ''/'') s"
proof (induction s rule: findall_comments.induct)
  case 1 then show ?case by simp
next
  case (2 c cs)
  show ?case
  proof (cases "match_here (c # cs)")
    case None
    with 2 have "tok \<noteq> [] \<and> (\<forall>c\<in>set tok. is_alnum c) \<and> sublist (''/comments/'' @ tok @ ''/'') cs"
      by simp
    then show ?thesis by (auto simp: sublist_Cons_right)
  next
    case (Some p)
    obtain t rest where p: "p = (t, rest)" by (cases p)
    from match_here_shape[OF Some[unfolded p]]
    have sh: "c # cs = ''/comments/'' @ t @ ''/'' @ rest" "t \<noteq> []" "\<forall>c\<in>set t. is_alnum c"
      by auto
    from 2(3) Some p have "tok = t \<or> tok \<in> set (findall_comments rest)" by auto
    then show ?thesis
    proof
      assume "tok = t"
      moreover have "sublist (''/comments/'' @ t @ ''/'') ((''/comments/'' @ t @ ''/'') @ rest)"
        by (rule prefix_imp_sublist) simp
      ultimately show ?thesis using sh by (simp del: sublist_Cons_right)
    next
      assume "tok \<in> set (findall_comments rest)"
      with 2(2)[OF Some[unfolded p] refl] 
      have ih: "tok \<noteq> [] \<and> (\<forall>c\<in>set tok. is_alnum c) \<and> sublist (''/comments/'' @ tok @ ''/'') rest"
        by simp
      then have "sublist (''/comments/'' @ tok @ ''/'') ((''/comments/'' @ t @ ''/'') @ rest)"
        by (intro sublist_prepend) simp
      with ih sh show ?thesis by simp
    qed
  qed
qed

text \<open>
  C5.  For every listing text and every cap that is not negative, the ids are the groups
  of the matches of the pattern, in order of appearance, with every id kept at its first
  occurrence only, cut to the first \<open>cap\<close> entries.  So the ids are distinct and at most
  \<open>cap\<close>, and each one is a non-empty alphanumeric token that stands in the listing
  between \<open>/comments/\<close> and a slash.  A listing with \<open>/comments/abc123/\<close> twice and
  \<open>/comments/xyz789/\<close> once, with cap 10, gives abc123 and xyz789.
\<close>

theorem extract_post_ids_first_seen:
  assumes "0 \<le> cap"
  shows "extract_post_ids text cap = take (nat cap) (first_seen (findall_comments text))
       \<and> distinct (extract_post_ids text cap)
       \<and> int (length (extract_post_ids text cap)) \<le> cap
       \<and> (\<forall>tok \<in> set (extract_post_ids text cap).
             tok \<noteq> [] \<and> list_all is_alnum tok \<and> sublist (''/comments/'' @ tok @ ''/'') text)
       \<and> extract_post_ids
            ''a /r/x/comments/abc123/t/ b /r/x/comments/xyz789/u/ c /r/x/comments/abc123/t/''
            10 = [''abc123'', ''xyz789'']"
proof -
  have eq: "extract_post_ids text cap = take (nat cap) (first_seen (findall_comments text))"
    using assms by (simp add: extract_post_ids_def slice_to_def dict_fromkeys_first_seen)
  have d: "distinct (extract_post_ids text cap)"
    unfolding eq by (rule distinct_take) (rule distinct_first_seen)
  have l: "int (length (extract_post_ids text cap)) \<le> cap"
    unfolding eq using assms by simp
  have m: "\<forall>tok \<in> set (extract_post_ids text cap).
             tok \<noteq> [] \<and> list_all is_alnum tok \<and> sublist (''/comments/'' @ tok @ ''/'') text"
  proof
    fix tok assume "tok \<in> set (extract_post_ids text cap)"
    then have "tok \<in> set (first_seen (findall_comments text))"
      unfolding eq by (rule in_set_takeD)
    then have "tok \<in> set (findall_comments text)" by (simp add: set_first_seen)
    from findall_comments_sound[OF this]
    show "tok \<noteq> [] \<and> list_all is_alnum tok \<and> sublist (''/comments/'' @ tok @ ''/'') text"
      by (simp add: list_all_iff)
  qed
  have ex: "extract_post_ids
            ''a /r/x/comments/abc123/t/ b /r/x/comments/xyz789/u/ c /r/x/comments/abc123/t/''
            10 = [''abc123'', ''xyz789'']"
    by code_simp
  from eq d l m ex show ?thesis by blast
qed

text \<open>The theorem at a listing with a repeated id and cap 1.\<close>

theorem extract_post_ids_first_seen_witness:
  "(0::int) \<le> 1
   \<and> extract_post_ids ''/comments/a1/ /comments/b2/ /comments/a1/'' 1 = [''a1'']
   \<and> first_seen (findall_comments ''/comments/a1/ /comments/b2/ /comments/a1/'') = [''a1'', ''b2'']
   \<and> ''a1'' \<in> set (extract_post_ids ''/comments/a1/ /comments/b2/ /comments/a1/'' 1)
   \<and> sublist ''/comments/a1/'' ''/comments/a1/ /comments/b2/ /comments/a1/''"
proof -
  have h: "(0::int) \<le> 1" by simp
  have f: "first_seen (findall_comments ''/comments/a1/ /comments/b2/ /comments/a1/'') = [''a1'', ''b2'']"
    by code_simp
  note T = extract_post_ids_first_seen[OF h, of "''/comments/a1/ /comments/b2/ /comments/a1/''"]
  from T have "extract_post_ids ''/comments/a1/ /comments/b2/ /comments/a1/'' 1
        = take (nat 1) (first_seen (findall_comments ''/comments/a1/ /comments/b2/ /comments/a1/''))"
    by (rule conjunct1)
  then have e: "extract_post_ids ''/comments/a1/ /comments/b2/ /comments/a1/'' 1 = [''a1'']"
    unfolding f by simp
  have i: "''a1'' \<in> set (extract_post_ids ''/comments/a1/ /comments/b2/ /comments/a1/'' 1)"
    unfolding e by simp
  from T have "\<forall>tok \<in> set (extract_post_ids ''/comments/a1/ /comments/b2/ /comments/a1/'' 1).
             tok \<noteq> [] \<and> list_all is_alnum tok
             \<and> sublist (''/comments/'' @ tok @ ''/'') ''/comments/a1/ /comments/b2/ /comments/a1/''"
    by blast
  with i have "sublist (''/comments/'' @ ''a1'' @ ''/'') ''/comments/a1/ /comments/b2/ /comments/a1/''"
    by blast
  then have s: "sublist ''/comments/a1/'' ''/comments/a1/ /comments/b2/ /comments/a1/''"
    by simp
  from h e f i s show ?thesis by blast
qed

section \<open>Trimming\<close>

lemma strip_by_idem: "strip_by P (strip_by P s) = strip_by P s"
proof -
  define t where "t = dropWhile P s"
  define u where "u = rev (dropWhile P (rev t))"
  have tu: "t = u @ rev (takeWhile P (rev t))"
  proof -
    have "t = rev (takeWhile P (rev t) @ dropWhile P (rev t))"
      by (simp only: takeWhile_dropWhile_id rev_rev_ident)
    also have "\<dots> = rev (dropWhile P (rev t)) @ rev (takeWhile P (rev t))"
      by (rule rev_append)
    finally show ?thesis unfolding u_def .
  qed
  have du: "dropWhile P u = u"
  proof (cases u)
    case Nil then show ?thesis by simp
  next
    case (Cons x u')
    from tu Cons have tx: "t = x # (u' @ rev (takeWhile P (rev t)))" by simp
    have "t \<noteq> []" by (subst tx) simp
    moreover have "hd t = x" by (subst tx) simp
    ultimately have "t \<noteq> []" and "hd t = x" .
    with hd_dropWhile[of P s] have "\<not> P x" by (simp add: t_def)
    with Cons show ?thesis by simp
  qed
  have "strip_by P u = rev (dropWhile P (rev u))"
    by (simp add: strip_by_def du)
  also have "rev u = dropWhile P (rev t)" by (simp add: u_def)
  also have "rev (dropWhile P (dropWhile P (rev t))) = u" by (simp add: u_def)
  finally show ?thesis by (simp add: strip_by_def t_def u_def)
qed

lemma strip_idem: "strip (strip s) = strip s"
  by (simp add: strip_def strip_by_idem)

lemma clean_strip: "strip s \<noteq> [] \<Longrightarrow> clean (strip s)"
  by (simp add: clean_def strip_idem)

lemma extract_clean:
  "(\<forall>bs. extract_comment_bodies j = Inr bs \<longrightarrow> list_all clean bs)"
  "(\<forall>bs. extend_each js acc = Inr bs \<longrightarrow> list_all clean acc \<longrightarrow> list_all clean bs)"
proof (induction j and js acc rule: extract_comment_bodies_extend_each.induct)
  case (1 data)
  show ?case
  proof (intro allI impI)
    fix bs assume a: "extract_comment_bodies (JObject data) = Inr bs"
    define own where "own = (case map_of data ''body'' of
              None \<Rightarrow> Inr []
            | Some v \<Rightarrow>
                (case str_strip v of
                   Inl e \<Rightarrow> Inl e
                 | Inr body \<Rightarrow>
                     if body \<noteq> [] \<and> body \<notin> set [''[deleted]'', ''[removed]'', '''']
                     then Inr [body] else Inr []))"
    from a obtain bodies where own: "own = Inr bodies"
      by (cases own) (simp_all add: own_def)
    have cb: "list_all clean bodies"
    proof (cases "map_of data ''body''")
      case None with own show ?thesis by (simp add: own_def)
    next
      case (Some v)
      with own show ?thesis
        by (cases v) (auto simp: own_def clean_strip split: if_splits)
    qed
    from a own have rest: "(case map_of data ''replies'' of
             None \<Rightarrow> Inr bodies
           | Some r \<Rightarrow>
               if \<not> truthy r then Inr bodies
               else (case r of
                       JArray rs \<Rightarrow> extend_each rs bodies
                     | JObject kv \<Rightarrow> Inr bodies
                     | JString s \<Rightarrow> Inr bodies
                     | _ \<Rightarrow> Inl TypeError)) = Inr bs"
      by (simp add: own_def)
    show "list_all clean bs"
    proof (cases "map_of data ''replies''")
      case None with rest cb show ?thesis by simp
    next
      case (Some r)
      show ?thesis
      proof (cases "truthy r")
        case False with Some rest cb show ?thesis by simp
      next
        case True
        show ?thesis
        proof (cases r)
          case (JArray rs)
          from rest Some True JArray have "extend_each rs bodies = Inr bs" by simp
          moreover note "1.IH"[OF own[unfolded own_def] Some _ JArray]
          ultimately show ?thesis using True cb by simp
        qed (use rest Some True cb in simp_all)
      qed
    qed
  qed
next
  case (9 item items bodies)
  show ?case
  proof (intro allI impI)
    fix bs assume a: "extend_each (item # items) bodies = Inr bs" and c: "list_all clean bodies"
    from a obtain b1 where b1: "extract_comment_bodies item = Inr b1"
      by (cases "extract_comment_bodies item") simp_all
    with a have e: "extend_each items (bodies @ b1) = Inr bs" by simp
    from "9.IH"(1) b1 have "list_all clean b1" by simp
    with c have "list_all clean (bodies @ b1)" by simp
    with "9.IH"(2)[OF b1] e show "list_all clean bs" by simp
  qed
qed simp_all

section \<open>Each step appends\<close>

lemma append_bodies_filter:
  "append_bodies bs texts = texts @ filter (\<lambda>b. strip b \<noteq> []) bs"
  by (induction bs arbitrary: texts) auto

lemma add_comments_append:
  "add_comments jl r texts = texts @ add_comments jl r []"
  by (simp add: add_comments_def append_bodies_filter
           split: tool_result.splits option.splits sum.splits)

lemma add_comments_clean: "list_all clean (add_comments jl r [])"
proof -
  have "list_all clean (filter (\<lambda>b. strip b \<noteq> []) bs)"
    if "extract_comment_bodies j = Inr bs" for j bs
    using extract_clean(1)[of j] that by (simp add: list_all_iff)
  then show ?thesis
    by (simp add: add_comments_def append_bodies_filter
           split: tool_result.splits option.splits sum.splits)
qed

lemma add_title_append:
  "add_title pd texts = (case add_title pd [] of Inl e \<Rightarrow> Inl e | Inr d \<Rightarrow> Inr (texts @ d))"
  by (simp add: add_title_def split: sum.splits bool.splits)

lemma add_body_append:
  "add_body pd texts = (case add_body pd [] of Inl e \<Rightarrow> Inl e | Inr d \<Rightarrow> Inr (texts @ d))"
  by (simp add: add_body_def split: sum.splits)

lemma add_title_entry:
  "add_title pd [] = Inr d \<Longrightarrow> length d \<le> 1 \<and> list_all clean d"
  by (auto simp: add_title_def clean_strip split: sum.splits bool.splits if_splits
           elim!: str_strip.elims)

lemma add_body_entry:
  "add_body pd [] = Inr d \<Longrightarrow> length d \<le> 1 \<and> list_all clean d"
  by (auto simp: add_body_def clean_strip split: sum.splits bool.splits if_splits
           elim!: str_strip.elims)

lemma add_post_content_append:
  "add_post_content pd texts =
     (texts @ fst (add_post_content pd []), snd (add_post_content pd []))"
  unfolding add_post_content_def
  by (subst add_title_append, subst (1 2 3) add_body_append)
     (simp split: sum.splits)

lemma add_post_content_parts:
  "fst (add_post_content pd []) =
     (case add_title pd [] of Inl e \<Rightarrow> [] | Inr ts \<Rightarrow> ts)
     @ (case add_title pd [] of Inl e \<Rightarrow> []
        | Inr ts \<Rightarrow> (case add_body pd [] of Inl e \<Rightarrow> [] | Inr bs \<Rightarrow> bs))"
  unfolding add_post_content_def
  by (subst add_body_append) (simp split: sum.splits)

section \<open>One post and the loop\<close>

lemma add_post_content_case:
  "(case add_post_content pd texts of (tx, None) \<Rightarrow> f tx | (tx, Some e) \<Rightarrow> g tx e) =
     (case snd (add_post_content pd []) of
        None \<Rightarrow> f (texts @ fst (add_post_content pd []))
      | Some e \<Rightarrow> g (texts @ fst (add_post_content pd [])) e)"
  using add_post_content_append[of pd texts]
  by (cases "add_post_content pd []") (simp split: option.splits)

lemma fetch_content_calls:
  "calls (fst (fetch_content jl sess pid st)) = calls st @ [GetPostContent pid]"
  by (simp add: fetch_content_def call_tool_def add_post_content_case
           split: tool_result.splits option.splits sum.splits)

lemma fetch_content_flow:
  "(snd (fetch_content jl sess pid st) = Proceed)
     = proceeds jl (sess (calls st) (GetPostContent pid))"
  by (simp add: fetch_content_def call_tool_def proceeds_def add_post_content_case
           split: tool_result.splits option.splits sum.splits)

lemma fetch_content_texts:
  "reddit_texts (fst (fetch_content jl sess pid st)) =
     reddit_texts st @ title_entry jl (sess (calls st) (GetPostContent pid))
                     @ body_entry jl (sess (calls st) (GetPostContent pid))"
proof -
  have "reddit_texts (fst (fetch_content jl sess pid st)) =
     reddit_texts st @ (case parsed_content jl (sess (calls st) (GetPostContent pid)) of
                          None \<Rightarrow> [] | Some pd \<Rightarrow> fst (add_post_content pd []))"
    by (simp add: fetch_content_def call_tool_def parsed_content_def add_post_content_case
           split: tool_result.splits option.splits sum.splits)
  then show ?thesis
    by (simp add: title_entry_def body_entry_def add_post_content_parts split: option.splits)
qed

lemma fetch_comments_calls:
  "calls (fetch_comments jl sess pid st) = calls st @ [GetPostComments pid]"
  by (simp add: fetch_comments_def call_tool_def)

lemma fetch_comments_texts:
  "reddit_texts (fetch_comments jl sess pid st) =
     reddit_texts st @ add_comments jl (sess (calls st) (GetPostComments pid)) []"
  using add_comments_append[of jl "sess (calls st) (GetPostComments pid)" "reddit_texts st"]
  by (simp add: fetch_comments_def call_tool_def)

lemma process_post_cases:
  "process_post jl sess pid st =
     (if proceeds jl (sess (calls st) (GetPostContent pid))
      then fetch_comments jl sess pid (fst (fetch_content jl sess pid st))
      else fst (fetch_content jl sess pid st))"
proof (cases "fetch_content jl sess pid st")
  case (Pair st1 fl)
  with fetch_content_flow[of jl sess pid st] show ?thesis
    by (cases fl) (simp_all add: process_post_def)
qed

lemma process_post_calls:
  "calls (process_post jl sess pid st) =
     calls st @ GetPostContent pid #
       (if proceeds jl (sess (calls st) (GetPostContent pid)) then [GetPostComments pid] else [])"
  by (simp add: process_post_cases fetch_comments_calls fetch_content_calls)

lemma process_post_texts:
  "reddit_texts (process_post jl sess pid st) =
     reddit_texts st
     @ title_entry jl (sess (calls st) (GetPostContent pid))
     @ body_entry jl (sess (calls st) (GetPostContent pid))
     @ (if proceeds jl (sess (calls st) (GetPostContent pid))
        then add_comments jl (sess (calls st @ [GetPostContent pid]) (GetPostComments pid)) []
        else [])"
  by (simp add: process_post_cases fetch_comments_texts fetch_content_texts fetch_content_calls)

lemma title_entry_clean: "length (title_entry jl r) \<le> 1 \<and> list_all clean (title_entry jl r)"
  using add_title_entry by (auto simp: title_entry_def split: option.splits sum.splits)

lemma body_entry_clean: "length (body_entry jl r) \<le> 1 \<and> list_all clean (body_entry jl r)"
  using add_body_entry by (auto simp: body_entry_def split: option.splits sum.splits)


lemma scrape_loop_texts_prefix:
  "prefix (reddit_texts st) (reddit_texts (scrape_loop jl sess ids st))"
proof (induction ids arbitrary: st)
  case Nil show ?case by simp
next
  case (Cons pid ids)
  have "prefix (reddit_texts st) (reddit_texts (process_post jl sess pid st))"
    by (simp add: process_post_texts)
  with Cons[of "process_post jl sess pid st"] show ?case
    by (auto intro: prefix_order.trans)
qed

lemma scrape_loop_content_ids:
  "content_ids (calls (scrape_loop jl sess ids st)) = content_ids (calls st) @ ids"
proof (induction ids arbitrary: st)
  case Nil show ?case by simp
next
  case (Cons pid ids)
  have app: "content_ids (xs @ ys) = content_ids xs @ content_ids ys" for xs ys
    by (induction xs rule: content_ids.induct) simp_all
  have "content_ids (calls (process_post jl sess pid st)) = content_ids (calls st) @ [pid]"
    by (simp add: process_post_calls app)
  with Cons[of "process_post jl sess pid st"] show ?case by simp
qed

lemma scrape_loop_new_clean:
  "list_all clean (drop (length (reddit_texts st)) (reddit_texts (scrape_loop jl sess ids st)))"
proof (induction ids arbitrary: st)
  case Nil show ?case by simp
next
  case (Cons pid ids)
  define st1 where "st1 = process_post jl sess pid st"
  obtain d where d: "reddit_texts st1 = reddit_texts st @ d" and cd: "list_all clean d"
    using title_entry_clean body_entry_clean add_comments_clean
    by (auto simp: st1_def process_post_texts)
  from scrape_loop_texts_prefix[of st1 jl sess ids]
  obtain d2 where d2: "reddit_texts (scrape_loop jl sess ids st1) = reddit_texts st1 @ d2"
    by (auto simp: prefix_def)
  with Cons[of st1] have "list_all clean d2" by simp
  with d d2 cd show ?case by (simp add: st1_def[symmetric])
qed

section \<open>Flattening is a pre-order walk\<close>





section \<open>The run\<close>

lemma scrape_loop_calls_prefix:
  "prefix (calls st) (calls (scrape_loop jl sess ids st))"
proof (induction ids arbitrary: st)
  case Nil show ?case by simp
next
  case (Cons pid ids)
  have "prefix (calls st) (calls (process_post jl sess pid st))"
    by (simp add: process_post_calls)
  with Cons[of "process_post jl sess pid st"] show ?case
    by (auto intro: prefix_order.trans)
qed

lemma scrape_reddit_mcp_Inr:
  assumes "scrape_reddit_mcp up jl sess url post_limit = Inr (name, st)"
  shows "extract_subreddit_name up url = Inr name"
    and "st = scrape_loop jl sess
               (extract_post_ids
                  (case sess [] (GetSubredditHotPosts name (min post_limit 100)) of
                     FirstText t \<Rightarrow> t | _ \<Rightarrow> '''')
                  post_limit)
               \<lparr>reddit_texts = [], calls = [GetSubredditHotPosts name (min post_limit 100)]\<rparr>"
proof -
  from assms show n: "extract_subreddit_name up url = Inr name"
    by (cases "extract_subreddit_name up url")
       (auto simp: scrape_reddit_mcp_def call_tool_def Let_def split: tool_result.splits)
  from assms n show "st = scrape_loop jl sess
               (extract_post_ids
                  (case sess [] (GetSubredditHotPosts name (min post_limit 100)) of
                     FirstText t \<Rightarrow> t | _ \<Rightarrow> '''')
                  post_limit)
               \<lparr>reddit_texts = [], calls = [GetSubredditHotPosts name (min post_limit 100)]\<rparr>"
    by (cases "sess [] (GetSubredditHotPosts name (min post_limit 100))")
       (simp_all add: scrape_reddit_mcp_def call_tool_def Let_def)
qed

section \<open>The example run\<close>

lemma example_run:
  "scrape_loop example_json_loads example_session [''a1'', ''c3'', ''b2'']
      \<lparr>reddit_texts = [], calls = []\<rparr>
   = \<lparr>reddit_texts = [''Hi'', ''hello'', ''bye'', ''Yo'', ''more text'', ''hello'', ''bye''],
       calls = [GetPostContent ''a1'', GetPostComments ''a1'', GetPostContent ''c3'',
                GetPostContent ''b2'', GetPostComments ''b2'']\<rparr>"
  by code_simp

text \<open>A decoder exception other than \<open>JSONDecodeError\<close>: for g7 the decoder raises
  \<open>RecursionError\<close>, the handler of line 158 takes over, and no comments call is made.\<close>

lemma decoder_exception_skips_comments:
  "example_json_loads deep_text = Inl RecursionError
   \<and> proceeds example_json_loads (example_session [] (GetPostContent ''g7'')) = False
   \<and> process_post example_json_loads example_session ''g7'' \<lparr>reddit_texts = [], calls = []\<rparr>
     = \<lparr>reddit_texts = [], calls = [GetPostContent ''g7'']\<rparr>"
  by code_simp

section \<open>The claims on the per-post loop\<close>

text \<open>
  C4.  Whatever the content call, the comments call and the decoding of their responses
  do for one id (the session may raise at any call, the decoder may fail on any text, a
  decoded value may have any shape), the loop goes on to the next id: the content call is
  made for every id of the batch, in batch order, and the loop returns the state reached
  after the last one.
\<close>

theorem every_post_id_attempted:
  "content_ids (calls (scrape_loop json_loads sess post_ids st)) = content_ids (calls st) @ post_ids"
  by (rule scrape_loop_content_ids)

text \<open>A batch in which the content call raises for c3, returns the server's error
  message for d4 and a text that is no record for e5: all five ids are attempted.\<close>

theorem every_post_id_attempted_witness:
  "content_ids (calls (scrape_loop example_json_loads example_session
       [''a1'', ''c3'', ''d4'', ''e5'', ''b2''] \<lparr>reddit_texts = [], calls = []\<rparr>))
     = [''a1'', ''c3'', ''d4'', ''e5'', ''b2'']
   \<and> example_session [GetPostContent ''a1'', GetPostComments ''a1''] (GetPostContent ''c3'') = Raised
   \<and> proceeds example_json_loads (example_session [] (GetPostContent ''e5'')) = False"
proof -
  have "example_session [GetPostContent ''a1'', GetPostComments ''a1''] (GetPostContent ''c3'') = Raised"
    by (simp add: example_session_def)
  moreover have "proceeds example_json_loads (example_session [] (GetPostContent ''e5'')) = False"
    by code_simp
  ultimately show ?thesis
    using every_post_id_attempted[of example_json_loads example_session
        "[''a1'', ''c3'', ''d4'', ''e5'', ''b2'']" "\<lparr>reddit_texts = [], calls = []\<rparr>"]
    by simp
qed

text \<open>
  C10.  Every string that the loop appends to the list, be it a title, a post body or a
  comment body, is non-empty and equals its own trimmed form; so is every entry of the
  list that a run returns.
\<close>

theorem appended_entries_trimmed:
  "(\<forall>e \<in> set (drop (length (reddit_texts st))
                  (reddit_texts (scrape_loop json_loads sess post_ids st))).
      e \<noteq> [] \<and> strip e = e)
   \<and> (scrape_reddit_mcp urlparse_path json_loads sess url post_limit = Inr (name, final) \<longrightarrow>
        (\<forall>e \<in> set (reddit_texts final). e \<noteq> [] \<and> strip e = e))"
proof -
  have loop: "\<forall>e \<in> set (drop (length (reddit_texts s))
                  (reddit_texts (scrape_loop json_loads sess ids s))).
      e \<noteq> [] \<and> strip e = e" for s ids
    using scrape_loop_new_clean[of s json_loads sess ids]
    by (simp add: list_all_iff clean_def)
  have run: "\<forall>e \<in> set (reddit_texts final). e \<noteq> [] \<and> strip e = e"
    if r: "scrape_reddit_mcp urlparse_path json_loads sess url post_limit = Inr (name, final)"
  proof -
    define st0 where "st0 = \<lparr>reddit_texts = [],
                               calls = [GetSubredditHotPosts name (min post_limit 100)]\<rparr>"
    from scrape_reddit_mcp_Inr(2)[OF r] obtain ids where
      "final = scrape_loop json_loads sess ids st0"
      unfolding st0_def by blast
    with loop[of st0 ids] show ?thesis by (simp add: st0_def)
  qed
  from loop[of st post_ids] run show ?thesis by blast
qed

text \<open>In the example run the body of b2 is appended trimmed; so are the entries of a
  whole run with the limit 2.\<close>

theorem appended_entries_trimmed_witness:
  "''more text'' \<in> set (drop (length (reddit_texts \<lparr>reddit_texts = [], calls = []\<rparr>))
        (reddit_texts (scrape_loop example_json_loads example_session [''a1'', ''c3'', ''b2'']
           \<lparr>reddit_texts = [], calls = []\<rparr>)))
   \<and> ''more text'' \<noteq> [] \<and> strip ''more text'' = ''more text''
   \<and> scrape_reddit_mcp example_urlparse_path example_json_loads example_session ''r/python'' 2
       = Inr (''python'',
              \<lparr>reddit_texts = [''Hi'', ''hello'', ''bye''],
                calls = [GetSubredditHotPosts ''python'' 2, GetPostContent ''a1'',
                         GetPostComments ''a1'', GetPostContent ''c3'']\<rparr>)
   \<and> strip ''hello'' = ''hello''"
proof -
  define st2 where "st2 = \<lparr>reddit_texts = [''Hi'', ''hello'', ''bye''],
              calls = [GetSubredditHotPosts ''python'' 2, GetPostContent ''a1'',
                       GetPostComments ''a1'', GetPostContent ''c3'']\<rparr>"
  have r2: "scrape_reddit_mcp example_urlparse_path example_json_loads example_session
              ''r/python'' 2 = Inr (''python'', st2)"
    unfolding st2_def by code_simp
  note T = appended_entries_trimmed[of "\<lparr>reddit_texts = [], calls = []\<rparr>" example_json_loads
      example_session "[''a1'', ''c3'', ''b2'']" example_urlparse_path "''r/python''" 2
      "''python''" st2]
  have m: "''more text'' \<in> set (drop (length (reddit_texts \<lparr>reddit_texts = [], calls = []\<rparr>))
        (reddit_texts (scrape_loop example_json_loads example_session [''a1'', ''c3'', ''b2'']
           \<lparr>reddit_texts = [], calls = []\<rparr>)))"
    unfolding example_run by simp
  with T have a: "''more text'' \<noteq> [] \<and> strip ''more text'' = ''more text''" by blast
  have "''hello'' \<in> set (reddit_texts st2)" by (simp add: st2_def)
  with T r2 have b: "strip ''hello'' = ''hello''" by blast
  from m a b r2 show ?thesis unfolding st2_def by blast
qed

text \<open>
  C1 as stated fails.  For c3 the content call raises and for d4 it returns the server's
  error message; in both cases the comments call is never made and nothing is appended,
  although the comments call would have returned a tree with two bodies.
\<close>

theorem comments_skipped_counterexample:
  "calls (process_post example_json_loads example_session ''c3'' \<lparr>reddit_texts = [], calls = []\<rparr>)
     = [GetPostContent ''c3'']
   \<and> reddit_texts (process_post example_json_loads example_session ''c3''
        \<lparr>reddit_texts = [], calls = []\<rparr>) = []
   \<and> example_session [] (GetPostContent ''c3'') = Raised
   \<and> calls (process_post example_json_loads example_session ''d4'' \<lparr>reddit_texts = [], calls = []\<rparr>)
     = [GetPostContent ''d4'']
   \<and> reddit_texts (process_post example_json_loads example_session ''d4''
        \<lparr>reddit_texts = [], calls = []\<rparr>) = []
   \<and> example_session [] (GetPostContent ''d4'') = FirstText ''Error processing request''
   \<and> add_comments example_json_loads (example_session [GetPostContent ''c3''] (GetPostComments ''c3'')) []
     = [''hello'', ''bye'']
   \<and> add_comments example_json_loads (example_session [GetPostContent ''d4''] (GetPostComments ''d4'')) []
     = [''hello'', ''bye'']"
  by code_simp

text \<open>
  C1, amended.  For every id the content call is made.  After a content call that raises,
  and after a content text that contains \<open>Error processing\<close>, no comments call is made
  for that id and nothing is appended.  After a content result without content, after a
  content text that fails to decode with \<open>JSONDecodeError\<close>, and after a content record
  that is read without an exception, the comments call for the same id is made and the
  bodies it yields are appended after the entries of the content.
\<close>

theorem comments_fetched_after_content:
  "prefix (calls st @ [GetPostContent post_id])
          (calls (process_post json_loads sess post_id st))
   \<and> (sess (calls st) (GetPostContent post_id) = Raised \<longrightarrow>
        calls (process_post json_loads sess post_id st) = calls st @ [GetPostContent post_id]
        \<and> reddit_texts (process_post json_loads sess post_id st) = reddit_texts st)
   \<and> (sess (calls st) (GetPostContent post_id) = FirstText t
        \<and> sublist ''Error processing'' t \<longrightarrow>
        calls (process_post json_loads sess post_id st) = calls st @ [GetPostContent post_id]
        \<and> reddit_texts (process_post json_loads sess post_id st) = reddit_texts st)
   \<and> (sess (calls st) (GetPostContent post_id) = NoContent \<longrightarrow>
        calls (process_post json_loads sess post_id st)
          = calls st @ [GetPostContent post_id, GetPostComments post_id]
        \<and> reddit_texts (process_post json_loads sess post_id st)
          = reddit_texts st
            @ add_comments json_loads
                (sess (calls st @ [GetPostContent post_id]) (GetPostComments post_id)) [])
   \<and> (sess (calls st) (GetPostContent post_id) = FirstText t
        \<and> \<not> sublist ''Error processing'' t
        \<and> json_loads t = Inl JSONDecodeError \<longrightarrow>
        calls (process_post json_loads sess post_id st)
          = calls st @ [GetPostContent post_id, GetPostComments post_id]
        \<and> reddit_texts (process_post json_loads sess post_id st)
          = reddit_texts st
            @ add_comments json_loads
                (sess (calls st @ [GetPostContent post_id]) (GetPostComments post_id)) [])
   \<and> (sess (calls st) (GetPostContent post_id) = FirstText t
        \<and> \<not> sublist ''Error processing'' t
        \<and> json_loads t = Inr post_data
        \<and> add_post_content post_data [] = (entries, None) \<longrightarrow>
        calls (process_post json_loads sess post_id st)
          = calls st @ [GetPostContent post_id, GetPostComments post_id]
        \<and> reddit_texts (process_post json_loads sess post_id st)
          = reddit_texts st @ entries
            @ add_comments json_loads
                (sess (calls st @ [GetPostContent post_id]) (GetPostComments post_id)) [])"
proof -
  let ?cr = "sess (calls st) (GetPostContent post_id)"
  let ?p = "process_post json_loads sess post_id st"
  let ?cs = "add_comments json_loads
                (sess (calls st @ [GetPostContent post_id]) (GetPostComments post_id)) []"
  note c = process_post_calls[of json_loads sess post_id st]
  note x = process_post_texts[of json_loads sess post_id st]
  have made: "prefix (calls st @ [GetPostContent post_id]) (calls ?p)"
    unfolding c by (simp add: prefix_def)
  have raised: "calls ?p = calls st @ [GetPostContent post_id] \<and> reddit_texts ?p = reddit_texts st"
    if "?cr = Raised"
    using that c x
    by (simp add: proceeds_def title_entry_def body_entry_def parsed_content_def)
  have marked: "calls ?p = calls st @ [GetPostContent post_id] \<and> reddit_texts ?p = reddit_texts st"
    if "?cr = FirstText t \<and> sublist ''Error processing'' t"
    using that c x
    by (simp add: proceeds_def title_entry_def body_entry_def parsed_content_def)
  have empty: "calls ?p = calls st @ [GetPostContent post_id, GetPostComments post_id]
               \<and> reddit_texts ?p = reddit_texts st @ ?cs"
    if "?cr = NoContent"
    using that c x
    by (simp add: proceeds_def title_entry_def body_entry_def parsed_content_def)
  have undecoded: "calls ?p = calls st @ [GetPostContent post_id, GetPostComments post_id]
               \<and> reddit_texts ?p = reddit_texts st @ ?cs"
    if "?cr = FirstText t \<and> \<not> sublist ''Error processing'' t \<and> json_loads t = Inl JSONDecodeError"
    using that c x
    by (simp add: proceeds_def title_entry_def body_entry_def parsed_content_def)
  have decoded: "calls ?p = calls st @ [GetPostContent post_id, GetPostComments post_id]
               \<and> reddit_texts ?p = reddit_texts st @ entries @ ?cs"
    if h: "?cr = FirstText t \<and> \<not> sublist ''Error processing'' t \<and> json_loads t = Inr post_data
           \<and> add_post_content post_data [] = (entries, None)"
  proof -
    from h have pc: "parsed_content json_loads ?cr = Some post_data"
      by (simp add: parsed_content_def)
    from h have pr: "proceeds json_loads ?cr" by (simp add: proceeds_def)
    have "title_entry json_loads ?cr @ body_entry json_loads ?cr
            = fst (add_post_content post_data [])"
      by (simp add: title_entry_def body_entry_def pc add_post_content_parts)
    also from h have "\<dots> = entries" by simp
    finally have "title_entry json_loads ?cr @ body_entry json_loads ?cr = entries" .
    then have "reddit_texts st @ title_entry json_loads ?cr @ body_entry json_loads ?cr @ ?cs
                 = reddit_texts st @ entries @ ?cs"
      by (metis append.assoc)
    with c x pr show ?thesis by simp
  qed
  from made raised marked empty undecoded decoded show ?thesis by blast
qed

text \<open>The amended statement at c3 (the content call raises), d4 (error message), an id
  without content, f6 (a text that is no JSON) and a1 (a record).\<close>

theorem comments_fetched_after_content_witness:
  "calls (process_post example_json_loads example_session ''c3'' \<lparr>reddit_texts = [], calls = []\<rparr>)
     = [GetPostContent ''c3'']
   \<and> calls (process_post example_json_loads example_session ''d4'' \<lparr>reddit_texts = [], calls = []\<rparr>)
     = [GetPostContent ''d4'']
   \<and> calls (process_post example_json_loads example_session ''zz'' \<lparr>reddit_texts = [], calls = []\<rparr>)
     = [GetPostContent ''zz'', GetPostComments ''zz'']
   \<and> reddit_texts (process_post example_json_loads example_session ''zz''
        \<lparr>reddit_texts = [], calls = []\<rparr>) = [''hello'', ''bye'']
   \<and> example_json_loads ''<html>'' = Inl JSONDecodeError
   \<and> calls (process_post example_json_loads example_session ''f6'' \<lparr>reddit_texts = [], calls = []\<rparr>)
     = [GetPostContent ''f6'', GetPostComments ''f6'']
   \<and> reddit_texts (process_post example_json_loads example_session ''f6''
        \<lparr>reddit_texts = [], calls = []\<rparr>) = [''hello'', ''bye'']
   \<and> calls (process_post example_json_loads example_session ''a1'' \<lparr>reddit_texts = [], calls = []\<rparr>)
     = [GetPostContent ''a1'', GetPostComments ''a1'']
   \<and> reddit_texts (process_post example_json_loads example_session ''a1''
        \<lparr>reddit_texts = [], calls = []\<rparr>) = [''Hi'', ''hello'', ''bye'']"
proof -
  define s0 where "s0 = \<lparr>reddit_texts = [], calls = []\<rparr>"
  have s: "calls s0 = []" "reddit_texts s0 = []" by (simp_all add: s0_def)
  have cr: "example_session [] (GetPostContent ''c3'') = Raised"
    "example_session [] (GetPostContent ''d4'') = FirstText ''Error processing request''"
    "example_session [] (GetPostContent ''zz'') = NoContent"
    "example_session [] (GetPostContent ''f6'') = FirstText ''<html>''"
    "example_session [] (GetPostContent ''a1'') = FirstText hi_text"
    by (simp_all add: example_session_def)
  have mk: "sublist ''Error processing'' ''Error processing request''"
    "\<not> sublist ''Error processing'' ''<html>''"
    "\<not> sublist ''Error processing'' hi_text"
    by code_simp+
  have dec: "example_json_loads ''<html>'' = Inl JSONDecodeError"
    "example_json_loads hi_text
       = Inr (JObject [(''title'', JString '' Hi ''), (''selftext'', JString ''none'')])"
    by code_simp+
  have apc: "add_post_content
               (JObject [(''title'', JString '' Hi ''), (''selftext'', JString ''none'')]) []
             = ([''Hi''], None)"
    by code_simp
  have cm: "add_comments example_json_loads
              (example_session ([] @ [GetPostContent p]) (GetPostComments p)) [] = [''hello'', ''bye'']"
    if "p \<noteq> ''h8''" for p
  proof -
    have "add_comments example_json_loads (FirstText tree_text) [] = [''hello'', ''bye'']"
      by code_simp
    with that show ?thesis by (simp add: example_session_def)
  qed
  note T = comments_fetched_after_content[of s0 _ example_json_loads example_session, unfolded s]
  from T[of "''c3''"] cr(1)
  have a: "calls (process_post example_json_loads example_session ''c3'' s0) = [GetPostContent ''c3'']"
    by simp
  from T[of "''d4''" "''Error processing request''"] cr(2) mk(1)
  have b: "calls (process_post example_json_loads example_session ''d4'' s0) = [GetPostContent ''d4'']"
    by simp
  from T[of "''zz''"] cr(3) cm[of "''zz''"]
  have c: "calls (process_post example_json_loads example_session ''zz'' s0)
             = [GetPostContent ''zz'', GetPostComments ''zz'']
           \<and> reddit_texts (process_post example_json_loads example_session ''zz'' s0)
             = [''hello'', ''bye'']"
    by simp
  from T[of "''f6''" "''<html>''"] cr(4) mk(2) dec(1) cm[of "''f6''"]
  have d: "calls (process_post example_json_loads example_session ''f6'' s0)
             = [GetPostContent ''f6'', GetPostComments ''f6'']
           \<and> reddit_texts (process_post example_json_loads example_session ''f6'' s0)
             = [''hello'', ''bye'']"
    by simp
  from T[of "''a1''" hi_text "JObject [(''title'', JString '' Hi ''), (''selftext'', JString ''none'')]"
           "[''Hi'']"] cr(5) mk(3) dec(2) apc cm[of "''a1''"]
  have e: "calls (process_post example_json_loads example_session ''a1'' s0)
             = [GetPostContent ''a1'', GetPostComments ''a1'']
           \<and> reddit_texts (process_post example_json_loads example_session ''a1'' s0)
             = [''Hi'', ''hello'', ''bye'']"
    by simp
  from a b c d e dec(1) show ?thesis unfolding s0_def by blast
qed



section \<open>The forum name follows the marker\<close>

lemma list_index_found: "x \<in> set xs \<Longrightarrow> \<exists>i. list_index x xs = Inr i"
  by (induction xs) auto

lemma following_marker_Cons:
  "following_marker (a # xs) =
     (case xs of [] \<Rightarrow> None | b # rest \<Rightarrow> if a = ''r'' then Some b else following_marker xs)"
  by (cases xs) simp_all

lemma after_first_Nil: "after_first m [] = None"
  by (simp add: after_first_def)

lemma after_first_hit: "after_first m (m # xs) = (case xs of [] \<Rightarrow> None | b # rest \<Rightarrow> Some b)"
  by (cases xs) (simp_all add: after_first_def)

lemma after_first_miss: "a \<noteq> m \<Longrightarrow> after_first m (a # xs) = after_first m xs"
proof (cases "m \<in> set xs")
  case False
  assume "a \<noteq> m"
  with False show ?thesis by (simp add: after_first_def)
next
  case True
  assume am: "a \<noteq> m"
  from list_index_found[OF True] obtain i where i: "list_index m xs = Inr i" ..
  with am have "list_index m (a # xs) = Inr (Suc i)" by simp
  with True i show ?thesis by (simp add: after_first_def)
qed

lemma following_marker_after_first: "following_marker parts = after_first ''r'' parts"
proof (induction parts)
  case Nil
  show ?case by (simp add: after_first_Nil)
next
  case (Cons a xs)
  show ?case
  proof (cases "a = ''r''")
    case True
    show ?thesis
      unfolding True by (simp only: following_marker_Cons after_first_hit refl if_True)
  next
    case False
    have "following_marker (a # xs) = following_marker xs"
    proof (cases xs)
      case Nil then show ?thesis by simp
    next
      case (Cons b rest)
      with False show ?thesis by (simp only: following_marker.simps if_False)
    qed
    also have "\<dots> = after_first ''r'' xs" by (rule Cons.IH)
    also have "\<dots> = after_first ''r'' (a # xs)"
      by (rule after_first_miss[OF False, symmetric])
    finally show ?thesis .
  qed
qed

lemma extract_subreddit_name_eq:
  "extract_subreddit_name up url =
     (if prefix ''r/'' url then Inr (drop 2 url)
      else (case up url of
              Inl e \<Rightarrow> Inl e
            | Inr path \<Rightarrow>
                (case following_marker (split_on CHR ''/'' (strip_slash path)) of
                   Some seg \<Rightarrow> Inr seg
                 | None \<Rightarrow> Inr url)))"
proof (cases "prefix ''r/'' url")
  case True
  then show ?thesis by (simp add: extract_subreddit_name_def)
next
  case False
  show ?thesis
  proof (cases "up url")
    case (Inl e)
    with False show ?thesis by (simp add: extract_subreddit_name_def)
  next
    case (Inr path)
    define parts where "parts = split_on CHR ''/'' (strip_slash path)"
    have code: "extract_subreddit_name up url =
        (if ''r'' \<in> set parts then
           (case list_index ''r'' parts of
              Inl e \<Rightarrow> Inl e
            | Inr r_index \<Rightarrow>
                if r_index + 1 < length parts then Inr (parts ! (r_index + 1)) else Inr url)
         else Inr url)"
      unfolding parts_def using False Inr by (simp add: extract_subreddit_name_def Let_def)
    have "extract_subreddit_name up url =
        (case after_first ''r'' parts of Some seg \<Rightarrow> Inr seg | None \<Rightarrow> Inr url)"
    proof (cases "''r'' \<in> set parts")
      case nr: False
      then show ?thesis unfolding code by (simp add: after_first_def)
    next
      case True
      from list_index_found[OF True] obtain i where "list_index ''r'' parts = Inr i" ..
      with True show ?thesis unfolding code by (simp add: after_first_def)
    qed
    with False Inr show ?thesis
      by (simp add: following_marker_after_first parts_def)
  qed
qed

section \<open>The claims on the run and the forum name\<close>

text \<open>
  C9 as stated fails in its last part.  The command line accepts a negative limit, and
  with the limit -1 the slice \<open>[:post_limit]\<close> drops the last id only: two ids are fetched,
  so the limit is no cap.  The listing call is given -1.
\<close>

theorem negative_limit_is_no_cap:
  "main example_py_int example_urlparse_path example_json_loads example_session
        [''reddit_mcp_scraper.py'', ''r/python'', ''-1'']
     = Inr (''python'',
            \<lparr>reddit_texts = [''Hi'', ''hello'', ''bye''],
              calls = [GetSubredditHotPosts ''python'' (- 1), GetPostContent ''a1'',
                       GetPostComments ''a1'', GetPostContent ''c3'']\<rparr>)
   \<and> content_ids [GetSubredditHotPosts ''python'' (- 1), GetPostContent ''a1'',
                    GetPostComments ''a1'', GetPostContent ''c3''] = [''a1'', ''c3'']
   \<and> \<not> int (length [''a1'', ''c3'']) \<le> - 1"
  by code_simp

text \<open>
  C9, amended.  Without a third command-line argument the post limit is 100; with one, it
  is the integer read from it.  The listing call is given the minimum of the limit and
  100.  The ids whose content is fetched are the deduplicated ids of the listing cut by
  the slice \<open>[:post_limit]\<close>.  With a limit that is not negative these are the first
  \<open>post_limit\<close> ids, so the limit is a hard cap; with a negative limit they are all but
  the last \<open>-post_limit\<close> ids.
\<close>

theorem post_limit_use:
  "(length argv = 2 \<longrightarrow>
      main py_int urlparse_path json_loads sess argv =
      scrape_reddit_mcp urlparse_path json_loads sess (argv ! 1) 100)
   \<and> (2 < length argv \<and> py_int (argv ! 2) = Some n \<longrightarrow>
      main py_int urlparse_path json_loads sess argv =
      scrape_reddit_mcp urlparse_path json_loads sess (argv ! 1) n)
   \<and> (scrape_reddit_mcp urlparse_path json_loads sess url post_limit = Inr (name, st) \<longrightarrow>
        hd (calls st) = GetSubredditHotPosts name (min post_limit 100)
        \<and> content_ids (calls st) =
            slice_to post_limit (dict_fromkeys (findall_comments
              (case sess [] (GetSubredditHotPosts name (min post_limit 100)) of
                 FirstText t \<Rightarrow> t | _ \<Rightarrow> '''')))
        \<and> (0 \<le> post_limit \<longrightarrow> int (length (content_ids (calls st))) \<le> post_limit)
        \<and> (0 \<le> post_limit \<longrightarrow>
             content_ids (calls st) =
               take (nat post_limit) (first_seen (findall_comments
                 (case sess [] (GetSubredditHotPosts name (min post_limit 100)) of
                    FirstText t \<Rightarrow> t | _ \<Rightarrow> ''''))))
        \<and> (post_limit < 0 \<longrightarrow>
             content_ids (calls st) =
               take (length (first_seen (findall_comments
                       (case sess [] (GetSubredditHotPosts name (min post_limit 100)) of
                          FirstText t \<Rightarrow> t | _ \<Rightarrow> ''''))) - nat (- post_limit))
                    (first_seen (findall_comments
                       (case sess [] (GetSubredditHotPosts name (min post_limit 100)) of
                          FirstText t \<Rightarrow> t | _ \<Rightarrow> '''')))))"
proof -
  have a: "length argv = 2 \<longrightarrow>
      main py_int urlparse_path json_loads sess argv =
      scrape_reddit_mcp urlparse_path json_loads sess (argv ! 1) 100"
    by (simp add: main_def)
  have b: "2 < length argv \<and> py_int (argv ! 2) = Some n \<longrightarrow>
      main py_int urlparse_path json_loads sess argv =
      scrape_reddit_mcp urlparse_path json_loads sess (argv ! 1) n"
    by (simp add: main_def)
  define listing where "listing = (case sess [] (GetSubredditHotPosts name (min post_limit 100)) of
                 FirstText t \<Rightarrow> t | _ \<Rightarrow> '''')"
  have c: "hd (calls st) = GetSubredditHotPosts name (min post_limit 100)
        \<and> content_ids (calls st) = slice_to post_limit (dict_fromkeys (findall_comments listing))
        \<and> (0 \<le> post_limit \<longrightarrow> int (length (content_ids (calls st))) \<le> post_limit)
        \<and> (0 \<le> post_limit \<longrightarrow>
             content_ids (calls st) = take (nat post_limit) (first_seen (findall_comments listing)))
        \<and> (post_limit < 0 \<longrightarrow>
             content_ids (calls st) =
               take (length (first_seen (findall_comments listing)) - nat (- post_limit))
                    (first_seen (findall_comments listing)))"
    if r: "scrape_reddit_mcp urlparse_path json_loads sess url post_limit = Inr (name, st)"
  proof -
    define st0 where "st0 = \<lparr>reddit_texts = [],
                               calls = [GetSubredditHotPosts name (min post_limit 100)]\<rparr>"
    from scrape_reddit_mcp_Inr(2)[OF r]
    have st: "st = scrape_loop json_loads sess (extract_post_ids listing post_limit) st0"
      by (simp add: listing_def st0_def)
    from scrape_loop_calls_prefix[of st0 json_loads sess "extract_post_ids listing post_limit"]
    obtain more where "calls st = calls st0 @ more"
      unfolding st by (auto simp: prefix_def)
    then have h: "hd (calls st) = GetSubredditHotPosts name (min post_limit 100)"
      by (simp add: st0_def)
    have ids: "content_ids (calls st) = extract_post_ids listing post_limit"
      unfolding st by (simp add: scrape_loop_content_ids st0_def)
    have len: "int (length (content_ids (calls st))) \<le> post_limit" if "0 \<le> post_limit"
      unfolding ids using that by (simp add: extract_post_ids_def slice_to_def)
    have pos: "content_ids (calls st) = take (nat post_limit) (first_seen (findall_comments listing))"
      if "0 \<le> post_limit"
      unfolding ids using that
      by (simp add: extract_post_ids_def slice_to_def dict_fromkeys_first_seen)
    have neg: "content_ids (calls st) =
               take (length (first_seen (findall_comments listing)) - nat (- post_limit))
                    (first_seen (findall_comments listing))"
      if "post_limit < 0"
      unfolding ids using that
      by (simp add: extract_post_ids_def slice_to_def dict_fromkeys_first_seen)
    from h ids len pos neg show ?thesis
      by (simp add: extract_post_ids_def)
  qed
  from a b c show ?thesis unfolding listing_def by blast
qed

text \<open>The command line without a limit, with the limit 2 (two of the three ids of the
  listing are fetched), a run with the limit 500 (the listing is asked for 100) and a run
  with the limit -1 (all ids but the last are fetched).\<close>

theorem post_limit_use_witness:
  "main example_py_int example_urlparse_path example_json_loads example_session
        [''reddit_mcp_scraper.py'', ''r/python'']
     = scrape_reddit_mcp example_urlparse_path example_json_loads example_session ''r/python'' 100
   \<and> main example_py_int example_urlparse_path example_json_loads example_session
        [''reddit_mcp_scraper.py'', ''r/python'', ''2'']
     = Inr (''python'',
            \<lparr>reddit_texts = [''Hi'', ''hello'', ''bye''],
              calls = [GetSubredditHotPosts ''python'' 2, GetPostContent ''a1'',
                       GetPostComments ''a1'', GetPostContent ''c3'']\<rparr>)
   \<and> content_ids [GetSubredditHotPosts ''python'' 2, GetPostContent ''a1'',
                    GetPostComments ''a1'', GetPostContent ''c3'']
     = slice_to 2 (dict_fromkeys (findall_comments
         ''/r/x/comments/a1/one/ /r/x/comments/c3/three/ /r/x/comments/a1/one/ /r/x/comments/b2/two/''))
   \<and> (\<exists>st. scrape_reddit_mcp example_urlparse_path example_json_loads example_session
               ''r/python'' 500 = Inr (''python'', st)
             \<and> hd (calls st) = GetSubredditHotPosts ''python'' 100
             \<and> content_ids (calls st) = [''a1'', ''c3'', ''b2''])
   \<and> (\<exists>st. scrape_reddit_mcp example_urlparse_path example_json_loads example_session
               ''r/python'' (- 1) = Inr (''python'', st)
             \<and> hd (calls st) = GetSubredditHotPosts ''python'' (- 1)
             \<and> content_ids (calls st) = [''a1'', ''c3''])"
proof -
  define L :: string where "L =
    ''/r/x/comments/a1/one/ /r/x/comments/c3/three/ /r/x/comments/a1/one/ /r/x/comments/b2/two/''"
  define st2 where "st2 = \<lparr>reddit_texts = [''Hi'', ''hello'', ''bye''],
              calls = [GetSubredditHotPosts ''python'' 2, GetPostContent ''a1'',
                       GetPostComments ''a1'', GetPostContent ''c3'']\<rparr>"
  have r2: "scrape_reddit_mcp example_urlparse_path example_json_loads example_session
              ''r/python'' 2 = Inr (''python'', st2)"
    unfolding st2_def by code_simp
  have l: "example_session [] (GetSubredditHotPosts ''python'' k) = FirstText L" for k
    by (simp add: example_session_def L_def)
  have fs: "first_seen (findall_comments L) = [''a1'', ''c3'', ''b2'']"
    unfolding L_def by code_simp
  note T = post_limit_use[of _ example_py_int example_urlparse_path example_json_loads
             example_session]
  have a: "main example_py_int example_urlparse_path example_json_loads example_session
        [''reddit_mcp_scraper.py'', ''r/python'']
     = scrape_reddit_mcp example_urlparse_path example_json_loads example_session ''r/python'' 100"
    using T[of "[''reddit_mcp_scraper.py'', ''r/python'']"] by simp
  have b: "main example_py_int example_urlparse_path example_json_loads example_session
        [''reddit_mcp_scraper.py'', ''r/python'', ''2'']
     = Inr (''python'', st2)"
    using T[of "[''reddit_mcp_scraper.py'', ''r/python'', ''2'']" 2] r2
    by (simp add: example_py_int_def)
  from T[of "[]" 0 "''r/python''" 2 "''python''" st2] r2
  have "content_ids (calls st2)
     = slice_to 2 (dict_fromkeys (findall_comments
         (case example_session [] (GetSubredditHotPosts ''python'' (min 2 100)) of
            FirstText t \<Rightarrow> t | _ \<Rightarrow> '''')))"
    by blast
  then have c: "content_ids (calls st2) = slice_to 2 (dict_fromkeys (findall_comments L))"
    by (simp only: l tool_result.case)
  obtain st5 where r5: "scrape_reddit_mcp example_urlparse_path example_json_loads example_session
              ''r/python'' 500 = Inr (''python'', st5)"
    by (simp add: scrape_reddit_mcp_def extract_subreddit_name_def call_tool_def
          example_session_def)
  note T5 = T[of "[]" 0 "''r/python''" 500 "''python''" st5]
  from T5 r5 have d1: "hd (calls st5) = GetSubredditHotPosts ''python'' (min 500 100)"
    by blast
  from T5 r5 have d2: "0 \<le> (500::int) \<longrightarrow> content_ids (calls st5) =
            take (nat 500) (first_seen (findall_comments
              (case example_session [] (GetSubredditHotPosts ''python'' (min 500 100)) of
                 FirstText t \<Rightarrow> t | _ \<Rightarrow> '''')))"
    by blast
  have d: "hd (calls st5) = GetSubredditHotPosts ''python'' 100
           \<and> content_ids (calls st5) = [''a1'', ''c3'', ''b2'']"
    using d1 d2 by (simp add: l fs del: findall_comments.simps)
  obtain stn where rn: "scrape_reddit_mcp example_urlparse_path example_json_loads example_session
              ''r/python'' (- 1) = Inr (''python'', stn)"
    by (simp add: scrape_reddit_mcp_def extract_subreddit_name_def call_tool_def
          example_session_def)
  note Tn = T[of "[]" 0 "''r/python''" "- 1" "''python''" stn]
  from Tn rn have e1: "hd (calls stn) = GetSubredditHotPosts ''python'' (min (- 1) 100)"
    by blast
  from Tn rn have e2: "(- 1::int) < 0 \<longrightarrow> content_ids (calls stn) =
             take (length (first_seen (findall_comments
                       (case example_session [] (GetSubredditHotPosts ''python'' (min (- 1) 100)) of
                          FirstText t \<Rightarrow> t | _ \<Rightarrow> ''''))) - nat (- (- 1)))
                    (first_seen (findall_comments
                       (case example_session [] (GetSubredditHotPosts ''python'' (min (- 1) 100)) of
                          FirstText t \<Rightarrow> t | _ \<Rightarrow> '''')))"
    by blast
  have e: "hd (calls stn) = GetSubredditHotPosts ''python'' (- 1)
           \<and> content_ids (calls stn) = [''a1'', ''c3'']"
    using e1 e2 by (simp add: l fs del: findall_comments.simps)
  from a b c d e r5 rn show ?thesis unfolding st2_def L_def by auto
qed

text \<open>
  C8 as stated fails in its last part: the URL parser raises \<open>ValueError\<close> on a host with
  an unmatched square bracket, nothing catches it, and the function fails.
\<close>

theorem forum_name_parser_fails:
  "extract_subreddit_name example_urlparse_path ''https://[reddit.com/r/python'' = Inl ValueError"
  by code_simp

text \<open>
  C8, amended.  An input that begins with \<open>r/\<close> gives its remainder after the prefix, and
  the function cannot fail there.  Any other input goes through the URL parser: if the
  parser raises, the function fails with that exception; if the path, stripped of slashes
  at both ends and split at slashes, has a segment \<open>r\<close> followed by another segment, the
  segment after the first \<open>r\<close> is returned; otherwise the input is returned unchanged.
\<close>

theorem extract_subreddit_name_cases:
  "extract_subreddit_name urlparse_path url =
     (if prefix ''r/'' url then Inr (drop 2 url)
      else (case urlparse_path url of
              Inl e \<Rightarrow> Inl e
            | Inr path \<Rightarrow>
                (case following_marker (split_on CHR ''/'' (strip_slash path)) of
                   Some seg \<Rightarrow> Inr seg
                 | None \<Rightarrow> Inr url)))"
  by (rule extract_subreddit_name_eq)

text \<open>A full URL, the shorthand and a bare name.\<close>

theorem extract_subreddit_name_cases_witness:
  "extract_subreddit_name example_urlparse_path ''https://www.reddit.com/r/python/'' = Inr ''python''
   \<and> extract_subreddit_name example_urlparse_path ''r/python'' = Inr ''python''
   \<and> extract_subreddit_name example_urlparse_path ''python'' = Inr ''python''
   \<and> example_urlparse_path ''https://www.reddit.com/r/python/'' = Inr ''/r/python/''"
proof -
  have p: "example_urlparse_path ''https://www.reddit.com/r/python/'' = Inr ''/r/python/''"
          "example_urlparse_path ''python'' = Inr ''python''"
    by code_simp+
  have f: "following_marker (split_on CHR ''/'' (strip_slash ''/r/python/'')) = Some ''python''"
          "following_marker (split_on CHR ''/'' (strip_slash ''python'')) = None"
    by code_simp+
  note T = extract_subreddit_name_cases[of example_urlparse_path]
  from T[of "''https://www.reddit.com/r/python/''"] T[of "''r/python''"] T[of "''python''"] p f
  show ?thesis by simp
qed

text \<open>
  C7 as stated fails: the bare prefix \<open>r/\<close>, a URL with an empty segment after \<open>/r/\<close>,
  and the empty input all give the empty name.
\<close>

theorem empty_forum_name:
  "extract_subreddit_name example_urlparse_path ''r/'' = Inr ''''
   \<and> extract_subreddit_name example_urlparse_path ''https://www.reddit.com/r//hot'' = Inr ''''
   \<and> extract_subreddit_name example_urlparse_path '''' = Inr ''''"
  by code_simp

text \<open>
  C7, amended.  The returned name is empty in exactly three cases: the input is the bare
  prefix \<open>r/\<close>; the input does not begin with \<open>r/\<close> and the path segment that follows
  the first segment \<open>r\<close> is empty; the input is empty and its path has no segment \<open>r\<close>
  followed by another.  In every other case in which the parser returns, the name is not
  empty.
\<close>

theorem forum_name_empty_iff:
  "(extract_subreddit_name urlparse_path url = Inr []) =
     (url = ''r/'' \<or>
      (\<not> prefix ''r/'' url \<and>
       (case urlparse_path url of
          Inl e \<Rightarrow> False
        | Inr path \<Rightarrow>
            (case following_marker (split_on CHR ''/'' (strip_slash path)) of
               Some seg \<Rightarrow> seg = []
             | None \<Rightarrow> url = []))))"
proof (cases "prefix ''r/'' url")
  case True
  then obtain rest where u: "url = ''r/'' @ rest" by (auto simp: prefix_def)
  have "(extract_subreddit_name urlparse_path url = Inr []) = (rest = [])"
    using True by (simp add: extract_subreddit_name_eq u)
  also have "\<dots> = (url = ''r/'')" by (simp add: u)
  finally show ?thesis using True by simp
next
  case False
  then have ne: "url \<noteq> ''r/''" by auto
  show ?thesis
  proof (cases "urlparse_path url")
    case (Inl e)
    with False ne show ?thesis by (simp add: extract_subreddit_name_eq)
  next
    case (Inr path)
    with False ne show ?thesis
      by (cases "following_marker (split_on CHR ''/'' (strip_slash path))")
         (simp_all add: extract_subreddit_name_eq)
  qed
qed

text \<open>A full URL gives a non-empty name; the bare prefix gives the empty one.\<close>

theorem forum_name_empty_iff_witness:
  "extract_subreddit_name example_urlparse_path ''https://www.reddit.com/r/python/'' \<noteq> Inr []
   \<and> example_urlparse_path ''https://www.reddit.com/r/python/'' = Inr ''/r/python/''
   \<and> following_marker (split_on CHR ''/'' (strip_slash ''/r/python/'')) = Some ''python''
   \<and> extract_subreddit_name example_urlparse_path ''r/'' = Inr []"
proof -
  have p: "example_urlparse_path ''https://www.reddit.com/r/python/'' = Inr ''/r/python/''"
    by code_simp
  have f: "following_marker (split_on CHR ''/'' (strip_slash ''/r/python/'')) = Some ''python''"
    by code_simp
  note T = forum_name_empty_iff[of example_urlparse_path]
  from T[of "''https://www.reddit.com/r/python/''"] T[of "''r/''"] p f
  show ?thesis by simp
qed

section \<open>Where the code departs from the specification\<close>

text \<open>
  C2.  The claim holds for the record with the body \<open>none\<close>, which appends the title
  only.  It fails for a sentinel with whitespace around it: line 95 compares the lowered,
  untrimmed body with the sentinels, so \<open>" none "\<close> passes the filter, and line 96 appends
  its trimmed form, the sentinel itself.  The comment path (lines 123--124) trims before
  it compares.
\<close>

theorem padded_sentinel_body_appended:
  "add_post_content (JObject [(''title'', JString ''Hi''), (''selftext'', JString '' none '')]) []
     = ([''Hi'', ''none''], None)
   \<and> add_post_content (JObject [(''title'', JString ''Hi''), (''selftext'', JString ''[Deleted] '')]) []
     = ([''Hi'', ''[Deleted]''], None)
   \<and> add_post_content (JObject [(''title'', JString ''Hi''), (''selftext'', JString ''none'')]) []
     = ([''Hi''], None)"
  by code_simp

text \<open>
  C3.  The claim fails on a dict whose \<open>body\<close> is not a string (line 123 calls \<open>strip\<close>
  on it) and on a dict whose \<open>replies\<close> is a number (line 127 iterates it): the
  flattener raises, and the bodies of the siblings already walked are lost with it.  A
  value that is neither a dict nor a list is skipped, as the claim says.
\<close>

theorem flattener_raises_on_null_body:
  "extract_comment_bodies (JObject [(''body'', JNull)]) = Inl AttributeError
   \<and> extract_comment_bodies
        (JArray [JObject [(''body'', JString ''hello'')], JObject [(''body'', JNull)]])
     = Inl AttributeError
   \<and> extract_comment_bodies (JObject [(''body'', JString ''hello''), (''replies'', JInt 5)])
     = Inl TypeError
   \<and> extract_comment_bodies (JArray [JObject [(''body'', JString ''hello'')], JInt 5, JNull])
     = Inr [''hello'']"
  by code_simp

end
